theory Spec2Isabelle
  imports Complex_Main "HOL-Library.Sublist"
begin

section \<open>Python values used by the chatbot\<close>

text \<open>
  Text is modelled as Isabelle strings with one \<^typ>\<open>char\<close> per character of the Python
  \<^verbatim>\<open>str\<close>, so the development speaks about text in the 8-bit range (code points
  below 256). The few characters of source literals that lie beyond this range are written
  with their Windows-1252 codes. Distances are Python floats in the source; they are
  modelled as exact reals, so rounding, infinities and NaN are outside the model.
\<close>

text \<open>
  The exceptions of the model: those of the interpreter, the three \<^verbatim>\<open>json.loads\<close> can end
  in, the one a text-mode read of undecodable bytes ends in, and the one of a generation
  call that fails (the model server cannot be reached, say).
\<close>

datatype py_error =
  IndexError | KeyError | AttributeError | TypeError
  | JSONDecodeError | RecursionError | ValueError | UnicodeDecodeError
  | ConnectionError

definition code :: "char \<Rightarrow> nat" where
  "code c = of_char c"

definition LF :: char where
  "LF = CHR 0x0A"

definition CR :: char where
  "CR = CHR 0x0D"

text \<open>\<^verbatim>\<open>str.lower()\<close> on one character: A-Z and the upper-case letters of Latin-1.\<close>

definition py_lower_char :: "char \<Rightarrow> char" where
  "py_lower_char c =
     (if 65 \<le> code c \<and> code c \<le> 90 then char_of (code c + 32)
      else if 192 \<le> code c \<and> code c \<le> 222 \<and> code c \<noteq> 215 then char_of (code c + 32)
      else c)"

definition py_lower :: "string \<Rightarrow> string" where
  "py_lower s = map py_lower_char s"

text \<open>\<^verbatim>\<open>str.isspace()\<close> on one character below 256.\<close>

definition py_isspace :: "char \<Rightarrow> bool" where
  "py_isspace c = (code c \<in> {9, 10, 11, 12, 13, 28, 29, 30, 31, 32, 133, 160})"

text \<open>\<^verbatim>\<open>str.strip()\<close>: remove the whitespace at both ends.\<close>

definition py_strip :: "string \<Rightarrow> string" where
  "py_strip s = rev (dropWhile py_isspace (rev (dropWhile py_isspace s)))"

text \<open>\<^verbatim>\<open>needle in haystack\<close> on strings is contiguous containment.\<close>

definition py_in :: "string \<Rightarrow> string \<Rightarrow> bool" where
  "py_in needle haystack = sublist needle haystack"

section \<open>Confidence and escalation helpers (app.py)\<close>

definition low_retrieval_confidence :: "real list \<Rightarrow> real \<Rightarrow> bool" where
  "low_retrieval_confidence distances threshold =
     (if distances = [] then True
      else (let avg = sum_list distances / real (length distances) in avg > threshold))"

definition out_of_scope_marker :: string where
  "out_of_scope_marker = ''outside ctl's tutoring info''"

text \<open>The two flags of \<^verbatim>\<open>get_response\<close> and their disjunction \<^verbatim>\<open>trigger\<close>.\<close>

definition bot_flagged_out_of_scope :: "string \<Rightarrow> bool" where
  "bot_flagged_out_of_scope reply = py_in out_of_scope_marker (py_lower reply)"

definition should_log_low_conf :: "real list \<Rightarrow> bool" where
  "should_log_low_conf distances = low_retrieval_confidence distances 1.1"

definition trigger :: "string \<Rightarrow> real list \<Rightarrow> bool" where
  "trigger reply distances = (bot_flagged_out_of_scope reply \<or> should_log_low_conf distances)"

text \<open>The words of the specification: arithmetic mean, and containment up to letter case.\<close>

definition mean :: "real list \<Rightarrow> real" where
  "mean ds = sum_list ds / real (length ds)"

definition contains_ignoring_case :: "string \<Rightarrow> string \<Rightarrow> bool" where
  "contains_ignoring_case reply marker =
     (\<exists>w. sublist w reply \<and> py_lower w = py_lower marker)"

subsection \<open>The e-mail predicate\<close>

text \<open>The character class \<^verbatim>\<open>[A-Za-z0-9._%+-]\<close>.\<close>

definition local_class :: "char \<Rightarrow> bool" where
  "local_class c =
     ((65 \<le> code c \<and> code c \<le> 90) \<or> (97 \<le> code c \<and> code c \<le> 122)
      \<or> (48 \<le> code c \<and> code c \<le> 57) \<or> c \<in> set ''._%+-'')"

text \<open>
  \<^verbatim>\<open>re.match(r"^[A-Za-z0-9._%+-]+@knox\.edu$", s) is not None\<close>. The class does not
  contain \<^verbatim>\<open>@\<close>, so the greedy run of class characters is the only candidate for the
  local part; \<^verbatim>\<open>$\<close> matches at the end of the string and before a final newline.
\<close>

definition knox_suffix :: string where
  "knox_suffix = ''@knox.edu''"

definition re_match_knox :: "string \<Rightarrow> bool" where
  "re_match_knox s =
     (let loc = takeWhile local_class s; rest = dropWhile local_class s
      in loc \<noteq> [] \<and> (rest = knox_suffix \<or> rest = knox_suffix @ [LF]))"

definition is_knox_email :: "string \<Rightarrow> bool" where
  "is_knox_email text =
     (if text = [] then False else re_match_knox (py_lower (py_strip text)))"

text \<open>The words of the specification: the allowed local-part characters and the address form.\<close>

definition allowed_local_char :: "char \<Rightarrow> bool" where
  "allowed_local_char c =
     ((65 \<le> code c \<and> code c \<le> 90) \<or> (97 \<le> code c \<and> code c \<le> 122)
      \<or> (48 \<le> code c \<and> code c \<le> 57)
      \<or> c = CHR ''.'' \<or> c = CHR ''_'' \<or> c = CHR ''%'' \<or> c = CHR ''+'' \<or> c = CHR ''-'')"

definition knox_address :: "string \<Rightarrow> bool" where
  "knox_address t =
     (\<exists>local dom. t = local @ dom \<and> local \<noteq> [] \<and> list_all allowed_local_char local
        \<and> py_lower dom = knox_suffix)"

section \<open>Retrieval (myollama.py)\<close>

type_synonym vec = "real list"

text \<open>Squared Euclidean distance, the metric of \<^verbatim>\<open>faiss.IndexFlatL2\<close>.\<close>

definition l2sqr :: "vec \<Rightarrow> vec \<Rightarrow> real" where
  "l2sqr x y = sum_list (map (\<lambda>(a, b). (a - b)\<^sup>2) (zip x y))"

text \<open>The largest float32, the distance faiss reports in a result slot it could not fill.\<close>

definition FLT_MAX :: real where
  "FLT_MAX = 340282346638528859811704183484516925440"

text \<open>
  \<^verbatim>\<open>index.search(q, k)\<close> of \<^verbatim>\<open>faiss.IndexFlatL2\<close> for one query vector. The search
  is library code, so the definition follows what the library does: the query is compared
  with every stored vector in storage order, the \<open>k\<close> nearest are kept, a kept result
  giving way only to a strictly nearer one, and they come out by increasing distance. The
  answer always has \<open>k\<close> slots; a slot without a result carries the label \<open>-1\<close> and
  the distance \<open>FLT_MAX\<close>. A stable sort by distance, cut after \<open>k\<close> entries, gives the
  same results.
\<close>

definition flat_l2_search :: "vec list \<Rightarrow> vec \<Rightarrow> nat \<Rightarrow> real list \<times> int list" where
  "flat_l2_search xb q k =
     (let scored = zip (map (l2sqr q) xb) [0..<length xb];
          best = take k (sort_key fst scored);
          missing = k - length best
      in (map fst best @ replicate missing FLT_MAX,
          map (\<lambda>(d, i). int i) best @ replicate missing (- 1)))"

text \<open>
  \<^verbatim>\<open>build_index\<close>: the index holds the embedding of every chunk, in chunk order. The
  sentence-embedding model is the parameter \<open>model\<close>.
\<close>

definition build_index :: "(string \<Rightarrow> vec) \<Rightarrow> string list \<Rightarrow> vec list" where
  "build_index model chunks = map model chunks"

text \<open>\<^verbatim>\<open>xs[i]\<close> on a Python list: a negative index counts from the end.\<close>

definition py_getitem :: "'a list \<Rightarrow> int \<Rightarrow> py_error + 'a" where
  "py_getitem xs i =
     (if 0 \<le> i \<and> i < int (length xs) then Inr (xs ! nat i)
      else if i < 0 \<and> - int (length xs) \<le> i then Inr (xs ! nat (int (length xs) + i))
      else Inl IndexError)"

text \<open>Evaluating a generator element by element: the first error ends it.\<close>

fun collect :: "('e + 'a) list \<Rightarrow> 'e + 'a list" where
  "collect [] = Inr []"
| "collect (x # xs) =
     (case x of
        Inl e \<Rightarrow> Inl e
      | Inr v \<Rightarrow> (case collect xs of Inl e \<Rightarrow> Inl e | Inr vs \<Rightarrow> Inr (v # vs)))"

fun py_join :: "string \<Rightarrow> string list \<Rightarrow> string" where
  "py_join sep [] = []"
| "py_join sep [x] = x"
| "py_join sep (x # y # ys) = x @ sep @ py_join sep (y # ys)"

definition get_context ::
  "string \<Rightarrow> vec list \<Rightarrow> (string \<Rightarrow> vec) \<Rightarrow> string list \<Rightarrow> nat \<Rightarrow> py_error + (string \<times> real list)" where
  "get_context question index model chunks top_k =
     (let q_embedding = model question;
          (D, I) = flat_l2_search index q_embedding top_k
      in case collect (map (py_getitem chunks) I) of
           Inl e \<Rightarrow> Inl e
         | Inr texts \<Rightarrow> Inr (py_join [LF] texts, D))"

record chat_message =
  role :: string
  content :: string

text \<open>
  \<^verbatim>\<open>chatbot\<close>: the generation call is the parameter \<open>chat\<close>; given the message list
  it returns the reply or raises. The source mutates the list \<^verbatim>\<open>messages\<close> in place and
  appends the user message before the call, so the list keeps that entry when the call
  raises. The model returns the list as it stands at the end, next to the result or the
  exception.
\<close>

definition chatbot ::
  "(chat_message list \<Rightarrow> py_error + string) \<Rightarrow> string \<Rightarrow> chat_message list \<Rightarrow> vec list
     \<Rightarrow> string list \<Rightarrow> (string \<Rightarrow> vec)
     \<Rightarrow> chat_message list \<times> (py_error + string \<times> real list \<times> string)" where
  "chatbot chat user_message messages index chunks embed_model =
     (case get_context user_message index embed_model chunks 5 of
        Inl e \<Rightarrow> (messages, Inl e)
      | Inr (context, distances) \<Rightarrow>
          (let messages1 = messages @
                 [\<lparr>role = ''user'',
                   content = ''Use this context to answer:\<newline>'' @ context
                     @ ''\<newline>\<newline>Question: '' @ user_message\<rparr>]
           in case chat messages1 of
                Inl e \<Rightarrow> (messages1, Inl e)
              | Inr reply \<Rightarrow>
                  (messages1 @ [\<lparr>role = ''assistant'', content = reply\<rparr>],
                   Inr (reply, distances, context))))"

section \<open>The chat endpoint (app.py)\<close>

definition system_prompt :: string where
  "system_prompt =
     ''You are an administrative assistant for the Knox College Center for Teaching and ''
     @ ''Learning (CTL). Your job is ONLY to help Knox students understand:\<newline>''
     @ ''- when and where tutors are available,\<newline>''
     @ ''- what subjects they cover,\<newline>''
     @ ''- how to get help or schedule tutoring.\<newline>''
     @ ''\<newline>''
     @ ''CRITICAL BEHAVIOR:\<newline>''
     @ ''- If the question is about tutoring, subjects, specific tutors (for example: 'Vansh ''
     @ ''Chugh'), availability, locations, scheduling, appointments, CTL services, academic ''
     @ ''support, study skills, or Knox classes: ANSWER it using the provided context.\<newline>''
     @ ''- If the question is clearly NOT academic or CTL-related (for example: weather, ''
     @ ''sports scores, celebrities, world news), DO NOT guess. In that case, reply normally ''
     @ ''if you can, but then ADD THIS EXACT SENTENCE at the end:\<newline>''
     @ ''\"I'm not sure about that because it's outside CTL's tutoring info. I can get a ''
     @ ''person to follow up if you want.\"\<newline>''
     @ ''\<newline>''
     @ ''FORMAT RULES:\<newline>''
     @ ''- Respond in clear, structured Markdown.\<newline>''
     @ ''- Use bullet points for multiple tutors or schedules.\<newline>''
     @ ''- Bold tutor names.\<newline>''
     @ ''- Put blank lines between different tutors.\<newline>''
     @ ''- Include calendar links when available.\<newline>''
     @ ''- Be warm, encouraging, and student-friendly.''"

definition intro :: string where
  "intro =
     ''Hi! I'm the CTL tutoring assistant for Knox College. I can help you find tutors, ''
     @ ''subjects, and availability.\<newline>''
     @ ''\<newline>''
     @ ''Before we get started, what's your Knox email so we can follow up if needed?\<newline>''
     @ ''(Example: yourname@knox.edu)''"

definition confirm_msg :: "string \<Rightarrow> string" where
  "confirm_msg email =
     ''Thanks! I've got your email as ''
     @ email
     @ ''.\<newline>''
     @ ''\<newline>''
     @ ''How can I help you today? (For example: 'When is math tutoring available?' or 'How ''
     @ ''do I book with Vansh Chugh?')''"

definition need_email_msg :: string where
  "need_email_msg =
     ''I just need your Knox email (like yourname@knox.edu) so we can follow up with you.\<newline>''
     @ ''Could you enter that first?''"

definition flagged_reply :: string where
  "flagged_reply =
     ''I'm not completely sure about that ''
     @ [CHR 0xE2, CHR 0x80, CHR 0x94]
     @ '' it may be outside what I know for CTL tutoring. I''
     @ [CHR 0xE2, CHR 0x80, CHR 0x99]
     @ ''ve flagged this so a staff member can follow up.''"

record chat_request =
  user_id :: string
  message :: string

text \<open>The two process-wide dictionaries.\<close>

record app_state =
  conversations :: "string \<rightharpoonup> chat_message list"
  student_emails :: "string \<rightharpoonup> string option"

text \<open>What is loaded once at startup, and the generation call.\<close>

record env =
  chat :: "chat_message list \<Rightarrow> py_error + string"
  index :: "vec list"
  chunks :: "string list"
  embed_model :: "string \<Rightarrow> vec"

text \<open>The arguments of one scheduled \<^verbatim>\<open>save_escalation_to_file\<close> task.\<close>

record escalation =
  esc_user_id :: string
  esc_question :: string
  esc_reply :: string
  esc_context :: string
  esc_distances :: "real list"
  esc_convo :: "chat_message list"
  esc_student_email :: string

text \<open>
  \<^verbatim>\<open>get_response\<close> gives the state after the request and either the exception raised or
  the response text with the tasks added to \<^verbatim>\<open>background_tasks\<close>. What was mutated before
  an exception stays mutated: the history keeps what \<^verbatim>\<open>chatbot\<close> appended to it.
\<close>

definition get_response ::
  "env \<Rightarrow> app_state \<Rightarrow> chat_request \<Rightarrow> app_state \<times> (py_error + string \<times> escalation list)" where
  "get_response e s request =
     (case conversations s (user_id request) of
        None \<Rightarrow>
          (s\<lparr>conversations := (conversations s)
                 (user_id request \<mapsto> [\<lparr>role = ''system'', content = system_prompt\<rparr>]),
               student_emails := (student_emails s)(user_id request \<mapsto> None)\<rparr>,
           Inr (intro, []))
      | Some history \<Rightarrow>
          (case student_emails s (user_id request) of
             None \<Rightarrow> (s, Inl KeyError)
           | Some None \<Rightarrow>
               (if is_knox_email (message request)
                then (s\<lparr>student_emails := (student_emails s)
                           (user_id request \<mapsto> Some (py_strip (message request)))\<rparr>,
                      Inr (confirm_msg (py_strip (message request)), []))
                else (s, Inr (need_email_msg, [])))
           | Some (Some email) \<Rightarrow>
               (case chatbot (chat e) (message request) history (index e) (chunks e)
                       (embed_model e) of
                  (history', Inl err) \<Rightarrow>
                    (s\<lparr>conversations := (conversations s)(user_id request \<mapsto> history')\<rparr>,
                     Inl err)
                | (history', Inr (reply, distances, context)) \<Rightarrow>
                    (let s' = s\<lparr>conversations := (conversations s)
                                 (user_id request \<mapsto> history')\<rparr>
                     in if trigger reply distances
                        then (s',
                              Inr (if bot_flagged_out_of_scope reply then flagged_reply else reply,
                                   [\<lparr>esc_user_id = user_id request,
                                     esc_question = message request,
                                     esc_reply = reply,
                                     esc_context = context,
                                     esc_distances = distances,
                                     esc_convo = history',
                                     esc_student_email = email\<rparr>]))
                        else (s', Inr (reply, []))))))"

text \<open>The server before its first request, and a sequence of requests handled one by one.\<close>

definition initial_state :: app_state where
  "initial_state = \<lparr>conversations = Map.empty, student_emails = Map.empty\<rparr>"

fun run :: "env \<Rightarrow> app_state \<Rightarrow> chat_request list \<Rightarrow> app_state" where
  "run e s [] = s"
| "run e s (r # rs) = run e (fst (get_response e s r)) rs"

definition awaiting_email :: "app_state \<Rightarrow> string \<Rightarrow> bool" where
  "awaiting_email s uid = (conversations s uid \<noteq> None \<and> student_emails s uid = Some None)"

definition ready :: "app_state \<Rightarrow> string \<Rightarrow> bool" where
  "ready s uid =
     (conversations s uid \<noteq> None
      \<and> (case student_emails s uid of Some (Some email) \<Rightarrow> True | _ \<Rightarrow> False))"

text \<open>
  The number of ready-state turns of \<open>uid\<close> in a sequence of requests, whatever their
  outcome, and the number of those that ended in an exception.
\<close>

fun ready_turns :: "env \<Rightarrow> app_state \<Rightarrow> chat_request list \<Rightarrow> string \<Rightarrow> nat" where
  "ready_turns e s [] uid = 0"
| "ready_turns e s (r # rs) uid =
     (if user_id r = uid \<and> ready s uid then 1 else 0)
       + ready_turns e (fst (get_response e s r)) rs uid"

fun raised_turns :: "env \<Rightarrow> app_state \<Rightarrow> chat_request list \<Rightarrow> string \<Rightarrow> nat" where
  "raised_turns e s [] uid = 0"
| "raised_turns e s (r # rs) uid =
     (if user_id r = uid \<and> ready s uid \<and> isl (snd (get_response e s r)) then 1 else 0)
       + raised_turns e (fst (get_response e s r)) rs uid"

section \<open>The escalation log (app.py)\<close>

text \<open>The values \<^verbatim>\<open>json.dumps\<close> writes and \<^verbatim>\<open>json.loads\<close> returns.\<close>

datatype json =
  JNull
  | JBool bool
  | JNum real
  | JStr string
  | JArr "json list"
  | JObj "(string \<times> json) list"

definition message_json :: "chat_message \<Rightarrow> json" where
  "message_json m = JObj [(''role'', JStr (role m)), (''content'', JStr (content m))]"

text \<open>
  The dictionary \<^verbatim>\<open>payload\<close>; \<open>now\<close> is \<^verbatim>\<open>datetime.datetime.utcnow().isoformat()\<close>
  at the moment of the write.
\<close>

definition payload :: "string \<Rightarrow> escalation \<Rightarrow> json" where
  "payload now t =
     JObj [(''timestamp'', JStr (now @ ''Z'')),
           (''user_id'', JStr (esc_user_id t)),
           (''student_email'', JStr (esc_student_email t)),
           (''question'', JStr (esc_question t)),
           (''reply'', JStr (esc_reply t)),
           (''context'', JStr (esc_context t)),
           (''distances'', JArr (map JNum (esc_distances t))),
           (''conversation'', JArr (map message_json (esc_convo t)))]"

text \<open>
  The log file as a reader in text mode meets it: missing, not readable (its bytes are not
  valid UTF-8, say, and the read raises), or its decoded text.
\<close>

datatype log_file = Missing | Unreadable py_error | Content string


text \<open>Reading in text mode: \<^verbatim>\<open>\r\n\<close> and \<^verbatim>\<open>\r\<close> arrive as \<^verbatim>\<open>\n\<close>.\<close>

fun universal_newlines :: "string \<Rightarrow> string" where
  "universal_newlines [] = []"
| "universal_newlines [c] = (if c = CR then [LF] else [c])"
| "universal_newlines (c # d # cs) =
     (if c = CR \<and> d = LF then LF # universal_newlines cs
      else if c = CR then LF # universal_newlines (d # cs)
      else c # universal_newlines (d # cs))"

text \<open>\<^verbatim>\<open>for line in f\<close>: every line keeps its newline; a last line may lack one.\<close>

fun lines_from :: "string \<Rightarrow> string \<Rightarrow> string list" where
  "lines_from cur [] = (if cur = [] then [] else [cur])"
| "lines_from cur (c # cs) =
     (if c = LF then (cur @ [LF]) # lines_from [] cs else lines_from (cur @ [c]) cs)"

definition file_lines :: "string \<Rightarrow> string list" where
  "file_lines text = lines_from [] (universal_newlines text)"

text \<open>
  The loop over the lines. Only \<^verbatim>\<open>json.JSONDecodeError\<close> is caught; any other exception
  of \<^verbatim>\<open>json.loads\<close> leaves the function, and with it the records read so far.
\<close>

fun read_records :: "(string \<Rightarrow> py_error + json) \<Rightarrow> string list \<Rightarrow> py_error + json list" where
  "read_records loads [] = Inr []"
| "read_records loads (line # rest) =
     (let line' = py_strip line
      in if line' = [] then read_records loads rest
         else (case loads line' of
                 Inr v \<Rightarrow>
                   (case read_records loads rest of
                      Inl err \<Rightarrow> Inl err
                    | Inr vs \<Rightarrow> Inr (v # vs))
               | Inl err \<Rightarrow>
                   (if err = JSONDecodeError then read_records loads rest else Inl err)))"

text \<open>Only \<^verbatim>\<open>FileNotFoundError\<close> is caught around the read.\<close>

definition load_escalations :: "(string \<Rightarrow> py_error + json) \<Rightarrow> log_file \<Rightarrow> py_error + json list" where
  "load_escalations loads file =
     (case file of
        Missing \<Rightarrow> Inr []
      | Unreadable err \<Rightarrow> Inl err
      | Content text \<Rightarrow> read_records loads (file_lines text))"


section \<open>The review page (app.py)\<close>

definition ellipsis :: string where
  "ellipsis =
     [CHR 0xE2, CHR 0x80, CHR 0xA6]"

definition row_html :: "string \<Rightarrow> string \<Rightarrow> string \<Rightarrow> string \<Rightarrow> string \<Rightarrow> string \<Rightarrow> string \<Rightarrow> string" where
  "row_html ts uid email avg_dist question reply context_preview =
     ''\<newline>''
     @ ''        <tr>\<newline>''
     @ ''          <td style=\"vertical-align:top; padding:8px; border-bottom:1px solid ''
     @ ''#ddd;\">\<newline>''
     @ ''            <div><b>Time:</b> ''
     @ ts
     @ ''</div>\<newline>''
     @ ''            <div><b>User ID:</b> ''
     @ uid
     @ ''</div>\<newline>''
     @ ''            <div><b>Email:</b> ''
     @ email
     @ ''</div>\<newline>''
     @ ''            <div><b>Avg FAISS Dist:</b> ''
     @ avg_dist
     @ ''</div>\<newline>''
     @ ''          </td>\<newline>''
     @ ''\<newline>''
     @ ''          <td style=\"vertical-align:top; padding:8px; border-bottom:1px solid ''
     @ ''#ddd;\">\<newline>''
     @ ''            <div style=\"font-weight:600; margin-bottom:4px;\">Student asked:</div>\<newline>''
     @ ''            <div style=\"white-space:pre-wrap;\">''
     @ question
     @ ''</div>\<newline>''
     @ ''\<newline>''
     @ ''            <div style=\"font-weight:600; margin:12px 0 4px;\">Bot replied:</div>\<newline>''
     @ ''            <div style=\"white-space:pre-wrap; color:#444;\">''
     @ reply
     @ ''</div>\<newline>''
     @ ''          </td>\<newline>''
     @ ''\<newline>''
     @ ''          <td style=\"vertical-align:top; padding:8px; border-bottom:1px solid ''
     @ ''#ddd;\">\<newline>''
     @ ''            <div style=\"font-weight:600; margin-bottom:4px;\">RAG context excerpt:</div>\<newline>''
     @ ''            <div style=\"font-size:13px; line-height:1.4; color:#555; white-space:pre-wrap;\">\<newline>''
     @ ''              ''
     @ context_preview
     @ ''\<newline>''
     @ ''            </div>\<newline>''
     @ ''          </td>\<newline>''
     @ ''        </tr>\<newline>''
     @ ''        ''"

definition empty_rows :: string where
  "empty_rows =
     ''\<newline>''
     @ ''        <tr>\<newline>''
     @ ''          <td colspan=\"3\" style=\"padding:20px; text-align:center; color:#666;\">\<newline>''
     @ ''            No escalations yet ''
     @ [CHR 0xF0, CHR 0x9F, CHR 0x8E, CHR 0x89]
     @ ''\<newline>''
     @ ''          </td>\<newline>''
     @ ''        </tr>\<newline>''
     @ ''        ''"

definition page_html :: "string \<Rightarrow> string" where
  "page_html rows_html =
     ''\<newline>''
     @ ''    <!DOCTYPE html>\<newline>''
     @ ''    <html lang=\"en\">\<newline>''
     @ ''    <head>\<newline>''
     @ ''      <meta charset=\"utf-8\" />\<newline>''
     @ ''      <title>CTL Chatbot Escalations</title>\<newline>''
     @ ''      <style>\<newline>''
     @ ''        body {\<newline>''
     @ ''          font-family: system-ui, -apple-system, BlinkMacSystemFont, \"Segoe UI\", ''
     @ ''Roboto, sans-serif;\<newline>''
     @ ''          background: #f5f5f5;\<newline>''
     @ ''          padding: 40px;\<newline>''
     @ ''          color: #222;\<newline>''
     @ ''        }\<newline>''
     @ ''\<newline>''
     @ ''        .card {\<newline>''
     @ ''          max-width: 1100px;\<newline>''
     @ ''          margin: 0 auto;\<newline>''
     @ ''          background: #fff;\<newline>''
     @ ''          border-radius: 12px;\<newline>''
     @ ''          box-shadow: 0 8px 24px rgba(0,0,0,0.08);\<newline>''
     @ ''          border: 1px solid #ddd;\<newline>''
     @ ''          overflow: hidden;\<newline>''
     @ ''        }\<newline>''
     @ ''\<newline>''
     @ ''        .header {\<newline>''
     @ ''          background: #b30000;\<newline>''
     @ ''          color: #fff;\<newline>''
     @ ''          padding: 16px 20px;\<newline>''
     @ ''          font-size: 18px;\<newline>''
     @ ''          font-weight: 600;\<newline>''
     @ ''          letter-spacing: 0.3px;\<newline>''
     @ ''          border-bottom: 3px solid #fff;\<newline>''
     @ ''        }\<newline>''
     @ ''\<newline>''
     @ ''        table {\<newline>''
     @ ''          border-collapse: collapse;\<newline>''
     @ ''          width: 100%;\<newline>''
     @ ''          font-size: 14px;\<newline>''
     @ ''        }\<newline>''
     @ ''\<newline>''
     @ ''        th {\<newline>''
     @ ''          text-align: left;\<newline>''
     @ ''          background: #fafafa;\<newline>''
     @ ''          border-bottom: 1px solid #ddd;\<newline>''
     @ ''          color: #444;\<newline>''
     @ ''          font-weight: 600;\<newline>''
     @ ''          padding: 10px 8px;\<newline>''
     @ ''          vertical-align: top;\<newline>''
     @ ''        }\<newline>''
     @ ''      </style>\<newline>''
     @ ''    </head>\<newline>''
     @ ''    <body>\<newline>''
     @ ''      <div class=\"card\">\<newline>''
     @ ''        <div class=\"header\">CTL Chatbot ''
     @ [CHR 0xE2, CHR 0x80, CHR 0x93]
     @ '' Escalations Review</div>\<newline>''
     @ ''        <table>\<newline>''
     @ ''          <thead>\<newline>''
     @ ''            <tr>\<newline>''
     @ ''              <th style=\"width:200px;\">Meta</th>\<newline>''
     @ ''              <th style=\"width:400px;\">Conversation Snapshot</th>\<newline>''
     @ ''              <th>Retrieved CTL Context (preview)</th>\<newline>''
     @ ''            </tr>\<newline>''
     @ ''          </thead>\<newline>''
     @ ''          <tbody>\<newline>''
     @ ''            ''
     @ rows_html
     @ ''\<newline>''
     @ ''          </tbody>\<newline>''
     @ ''        </table>\<newline>''
     @ ''      </div>\<newline>''
     @ ''    </body>\<newline>''
     @ ''    </html>\<newline>''
     @ ''    ''"

record review_row =
  row_ts :: string
  row_user_id :: string
  row_email :: string
  row_avg_dist :: string
  row_question :: string
  row_reply :: string
  row_context_preview :: string

text \<open>\<^verbatim>\<open>s.replace("<", "&lt;")\<close>.\<close>

definition escape_lt :: "string \<Rightarrow> string" where
  "escape_lt s = concat (map (\<lambda>c. if c = CHR ''<'' then ''&lt;'' else [c]) s)"

text \<open>Truth value of a loaded value, and its value as a number (Python's bools are ints).\<close>

fun truthy :: "json \<Rightarrow> bool" where
  "truthy JNull = False"
| "truthy (JBool b) = b"
| "truthy (JNum x) = (x \<noteq> 0)"
| "truthy (JStr s) = (s \<noteq> [])"
| "truthy (JArr xs) = (xs \<noteq> [])"
| "truthy (JObj kvs) = (kvs \<noteq> [])"

fun number_of :: "json \<Rightarrow> real option" where
  "number_of (JNum x) = Some x"
| "number_of (JBool b) = Some (if b then 1 else 0)"
| "number_of v = None"

text \<open>
  \<^verbatim>\<open>round(sum(distances) / len(distances), 3) if distances else "n/a"\<close>, as the text
  the template shows; \<open>show_avg\<close> stands for rounding to three places and printing.
\<close>

definition avg_dist_text :: "(real \<Rightarrow> string) \<Rightarrow> json \<Rightarrow> py_error + string" where
  "avg_dist_text show_avg distances =
     (if \<not> truthy distances then Inr ''n/a''
      else (case distances of
              JArr xs \<Rightarrow>
                (if list_all (\<lambda>x. number_of x \<noteq> None) xs
                 then Inr (show_avg (sum_list (map (\<lambda>x. the (number_of x)) xs) / real (length xs)))
                 else Inl TypeError)
            | _ \<Rightarrow> Inl TypeError))"

text \<open>A value inside an f-string: a string as it is, \<open>py_str\<close> for everything else.\<close>

definition py_format :: "(json \<Rightarrow> string) \<Rightarrow> json \<Rightarrow> string" where
  "py_format py_str v = (case v of JStr s \<Rightarrow> s | _ \<Rightarrow> py_str v)"

text \<open>
  One pass of the loop body up to the template: the seven values the row shows. The
  exceptions come in the order of the source: the slice and concatenation on the context
  first, then the two \<^verbatim>\<open>replace\<close> calls, then the average.
\<close>

definition row_fields ::
  "(json \<Rightarrow> string) \<Rightarrow> (real \<Rightarrow> string) \<Rightarrow> json \<Rightarrow> py_error + review_row" where
  "row_fields py_str show_avg item =
     (case item of
        JObj kvs \<Rightarrow>
          (let get = (\<lambda>key default. case map_of kvs key of Some v \<Rightarrow> v | None \<Rightarrow> default);
               ts = get ''timestamp'' (JStr ''n/a'');
               uid = get ''user_id'' (JStr ''n/a'');
               email = get ''student_email'' (JStr ''n/a'');
               question = get ''question'' (JStr []);
               reply = get ''reply'' (JStr []);
               context = get ''context'' (JStr []);
               distances = get ''distances'' (JArr [])
           in case context of
                JStr c \<Rightarrow>
                  (case question of
                     JStr q \<Rightarrow>
                       (case reply of
                          JStr r \<Rightarrow>
                            (case avg_dist_text show_avg distances of
                               Inl err \<Rightarrow> Inl err
                             | Inr avg \<Rightarrow>
                                 Inr \<lparr>row_ts = py_format py_str ts,
                                      row_user_id = py_format py_str uid,
                                      row_email = py_format py_str email,
                                      row_avg_dist = avg,
                                      row_question = escape_lt q,
                                      row_reply = escape_lt r,
                                      row_context_preview = escape_lt (take 300 c @ ellipsis)\<rparr>)
                        | _ \<Rightarrow> Inl AttributeError)
                   | _ \<Rightarrow> Inl AttributeError)
              | _ \<Rightarrow> Inl TypeError)
      | _ \<Rightarrow> Inl AttributeError)"

definition render_row :: "review_row \<Rightarrow> string" where
  "render_row r =
     row_html (row_ts r) (row_user_id r) (row_email r) (row_avg_dist r) (row_question r)
       (row_reply r) (row_context_preview r)"

text \<open>\<^verbatim>\<open>for item in ...: rows_html += f"..."\<close>, over the items in the order given.\<close>

fun rows_loop ::
  "(json \<Rightarrow> string) \<Rightarrow> (real \<Rightarrow> string) \<Rightarrow> json list \<Rightarrow> string \<Rightarrow> py_error + string" where
  "rows_loop py_str show_avg [] rows_html = Inr rows_html"
| "rows_loop py_str show_avg (item # items) rows_html =
     (case row_fields py_str show_avg item of
        Inl err \<Rightarrow> Inl err
      | Inr r \<Rightarrow> rows_loop py_str show_avg items (rows_html @ render_row r))"

definition review_escalations ::
  "(string \<Rightarrow> py_error + json) \<Rightarrow> (json \<Rightarrow> string) \<Rightarrow> (real \<Rightarrow> string) \<Rightarrow> log_file
     \<Rightarrow> py_error + string" where
  "review_escalations loads py_str show_avg file =
     (case load_escalations loads file of
        Inl err \<Rightarrow> Inl err
      | Inr data \<Rightarrow>
          (case rows_loop py_str show_avg (rev data) [] of
             Inl err \<Rightarrow> Inl err
           | Inr rows_html \<Rightarrow>
               Inr (page_html (if rows_html = [] then empty_rows else rows_html))))"

text \<open>
  The words of the specification for the order of results, on (distance, position) pairs:
  ascending distance, and among equal distances the chunk inserted first.
\<close>

definition nearer_first :: "real \<times> nat \<Rightarrow> real \<times> nat \<Rightarrow> bool" where
  "nearer_first a b = (fst a < fst b \<or> (fst a = fst b \<and> snd a < snd b))"


definition log_text :: "string list \<Rightarrow> string" where
  "log_text ls = concat (map (\<lambda>l. l @ [LF]) ls)"

section \<open>Example values\<close>

text \<open>
  A small knowledge base with a toy embedding (text length on one axis), a generation
  call that echoes its prompt and one that cannot reach its server, a session past
  onboarding, and a codec that knows three records and one line nested too deeply to be
  parsed.
\<close>

definition demo_embed :: "string \<Rightarrow> vec" where
  "demo_embed s = [real (length s) / 10, 1]"

definition demo_chunks :: "string list" where
  "demo_chunks = [''Math tutoring: Mon 3pm'', ''Writing help: Tue'', ''Physics: Wed 1pm'',
                  ''Chemistry: Thu 10am'', ''Biology: Fri'']"

definition demo_chat :: "chat_message list \<Rightarrow> py_error + string" where
  "demo_chat ms = Inr (''Echo: '' @ content (last ms))"

definition failing_chat :: "chat_message list \<Rightarrow> py_error + string" where
  "failing_chat ms = Inl ConnectionError"

definition demo_env :: env where
  "demo_env = \<lparr>chat = demo_chat, index = build_index demo_embed demo_chunks,
                chunks = demo_chunks, embed_model = demo_embed\<rparr>"

definition failing_env :: env where
  "failing_env = \<lparr>chat = failing_chat, index = build_index demo_embed demo_chunks,
                   chunks = demo_chunks, embed_model = demo_embed\<rparr>"

definition req :: "string \<Rightarrow> string \<Rightarrow> chat_request" where
  "req u m = \<lparr>user_id = u, message = m\<rparr>"


definition demo_task :: escalation where
  "demo_task = \<lparr>esc_user_id = ''u1'', esc_question = ''Is 2 < 3?'', esc_reply = ''No idea'',
                 esc_context = ''Math tutoring: Mon 3pm'', esc_distances = [1.5, 1.25],
                 esc_convo = [\<lparr>role = ''system'', content = system_prompt\<rparr>],
                 esc_student_email = ''bob@knox.edu''\<rparr>"

definition script_task :: escalation where
  "script_task = demo_task\<lparr>esc_user_id := ''<script>alert(1)</script>''\<rparr>"

definition deep_line :: string where
  "deep_line = replicate 100000 CHR ''[''"


definition demo_py_str :: "json \<Rightarrow> string" where
  "demo_py_str v = ''None''"

definition demo_show_avg :: "real \<Rightarrow> string" where
  "demo_show_avg x = (if x = 1.375 then ''1.375'' else ''0.0'')"

definition demo_loads :: "string \<Rightarrow> py_error + json" where
  "demo_loads line =
     (if line = ''{\"record\": 1}'' then Inr (payload ''2024-05-01T10:00:00'' demo_task)
      else if line = ''{\"record\": 2}'' then Inr (payload ''2024-05-01T11:30:00'' demo_task)
      else if line = ''{\"record\": 3}'' then Inr (payload ''2024-05-01T12:00:00'' script_task)
      else if line = deep_line then Inl RecursionError
      else Inl JSONDecodeError)"

section \<open>Properties\<close>

lemma sublist_map_iff:
  "sublist m (map f r) \<longleftrightarrow> (\<exists>w. sublist w r \<and> map f w = m)"
proof
  assume "sublist m (map f r)"
  then obtain ps ss where "map f r = ps @ m @ ss"
    by (auto simp: sublist_def)
  then have "\<exists>us vs. r = us @ vs \<and> ps = map f us \<and> m @ ss = map f vs"
    by (simp only: map_eq_append_conv)
  then obtain r1 r' where r1: "r = r1 @ r'" "map f r' = m @ ss"
    by metis
  then have "\<exists>us vs. r' = us @ vs \<and> m = map f us \<and> ss = map f vs"
    by (simp only: map_eq_append_conv)
  then obtain r2 r3 where "r' = r2 @ r3" "map f r2 = m"
    by metis
  with r1 have "r = r1 @ r2 @ r3" "map f r2 = m"
    by simp_all
  then show "\<exists>w. sublist w r \<and> map f w = m"
    by (auto simp: sublist_def)
next
  assume "\<exists>w. sublist w r \<and> map f w = m"
  then obtain w ps ss where "r = ps @ w @ ss" "map f w = m"
    by (auto simp: sublist_def)
  then have "map f r = map f ps @ m @ map f ss"
    by simp
  then show "sublist m (map f r)"
    unfolding sublist_def by blast
qed

subsection \<open>The escalation trigger\<close>

lemma marker_lower: "map py_lower_char out_of_scope_marker = out_of_scope_marker"
  by (simp add: py_lower_char_def code_def out_of_scope_marker_def)

lemma flag_iff:
  "bot_flagged_out_of_scope reply \<longleftrightarrow> contains_ignoring_case reply out_of_scope_marker"
  by (simp add: bot_flagged_out_of_scope_def py_in_def contains_ignoring_case_def
      py_lower_def sublist_map_iff marker_lower)

text \<open>
  Claim C1. The escalation predicate is true exactly when the distance list is empty, or the
  arithmetic mean of the distances exceeds 1.1, or the reply contains the out-of-scope
  marker up to letter case; in every other case it is false.
\<close>

theorem trigger_iff:
  "trigger reply distances \<longleftrightarrow>
     (distances = [] \<or> mean distances > 1.1
      \<or> contains_ignoring_case reply out_of_scope_marker)"
  unfolding trigger_def flag_iff
  by (auto simp: should_log_low_conf_def low_retrieval_confidence_def mean_def Let_def)

theorem trigger_iff_witness:
  "trigger ''Math tutoring is on Monday'' [1.2, 1.1]"
  using trigger_iff [of "''Math tutoring is on Monday''" "[1.2, 1.1]"]
  by (simp add: mean_def)

subsection \<open>The e-mail predicate\<close>

lemma code_char_of: "n < 256 \<Longrightarrow> code (char_of n) = n"
  by (simp add: code_def)

lemma code_eq_iff: "c = d \<longleftrightarrow> code c = code d"
  by (auto simp add: code_def)

lemma code_lt: "code c < 256"
  by (simp add: code_def)

lemma code_lower:
  "code (py_lower_char c) =
     (if 65 \<le> code c \<and> code c \<le> 90 then code c + 32
      else if 192 \<le> code c \<and> code c \<le> 222 \<and> code c \<noteq> 215 then code c + 32
      else code c)"
  by (simp add: py_lower_char_def code_char_of)

lemma local_class_code:
  "local_class c \<longleftrightarrow> ((65 \<le> code c \<and> code c \<le> 90) \<or> (97 \<le> code c \<and> code c \<le> 122)
      \<or> (48 \<le> code c \<and> code c \<le> 57) \<or> code c \<in> {46, 95, 37, 43, 45})"
proof -
  have "c \<in> set ''._%+-'' \<longleftrightarrow> code c \<in> {46, 95, 37, 43, 45}"
    by (simp add: code_eq_iff [of c]) (simp add: code_def; blast)
  then show ?thesis
    by (simp only: local_class_def)
qed

lemma allowed_code:
  "allowed_local_char c \<longleftrightarrow> ((65 \<le> code c \<and> code c \<le> 90) \<or> (97 \<le> code c \<and> code c \<le> 122)
      \<or> (48 \<le> code c \<and> code c \<le> 57) \<or> code c \<in> {46, 95, 37, 43, 45})"
proof -
  have "(c = CHR ''.'' \<or> c = CHR ''_'' \<or> c = CHR ''%'' \<or> c = CHR ''+'' \<or> c = CHR ''-'')
     \<longleftrightarrow> code c \<in> {46, 95, 37, 43, 45}"
    by (simp add: code_eq_iff [of c]) (simp add: code_def; blast)
  then show ?thesis
    by (simp only: allowed_local_char_def)
qed

lemma class_lower: "local_class (py_lower_char c) \<longleftrightarrow> allowed_local_char c"
  unfolding local_class_code allowed_code code_lower
  by auto

lemma strip_Nil: "py_strip [] = []"
  by (simp add: py_strip_def)

lemma strip_last: "py_strip s \<noteq> [] \<Longrightarrow> \<not> py_isspace (last (py_strip s))"
proof -
  assume a: "py_strip s \<noteq> []"
  define u where "u = dropWhile py_isspace (rev (dropWhile py_isspace s))"
  have s: "py_strip s = rev u" by (simp add: py_strip_def u_def)
  with a have "u \<noteq> []" by simp
  then have "\<not> py_isspace (hd u)" unfolding u_def by (rule hd_dropWhile)
  with \<open>u \<noteq> []\<close> show ?thesis by (simp add: s last_rev)
qed

lemma lower_LF: "py_lower_char c = LF \<Longrightarrow> c = LF"
  by (simp add: code_eq_iff [of _ LF] code_lower) (auto simp: LF_def code_def split: if_splits)

lemma isspace_LF: "py_isspace LF"
  by (simp add: py_isspace_def LF_def code_def)

lemma not_class_at: "\<not> local_class CHR ''@''"
  by (simp add: local_class_code) (simp add: code_def)

lemma re_match_knox_iff:
  "re_match_knox s \<longleftrightarrow>
     (\<exists>loc tl. s = loc @ knox_suffix @ tl \<and> loc \<noteq> [] \<and> list_all local_class loc
        \<and> (tl = [] \<or> tl = [LF]))"
proof
  assume m: "re_match_knox s"
  define loc where "loc = takeWhile local_class s"
  define rest where "rest = dropWhile local_class s"
  have s: "s = loc @ rest" by (simp add: loc_def rest_def)
  have all: "list_all local_class loc"
    by (simp add: loc_def list_all_iff) (meson set_takeWhileD)
  from m have "loc \<noteq> []" and "rest = knox_suffix @ [] \<or> rest = knox_suffix @ [LF]"
    by (simp_all add: re_match_knox_def Let_def loc_def rest_def)
  with s all show "\<exists>loc tl. s = loc @ knox_suffix @ tl \<and> loc \<noteq> [] \<and> list_all local_class loc
        \<and> (tl = [] \<or> tl = [LF])"
    by blast
next
  assume "\<exists>loc tl. s = loc @ knox_suffix @ tl \<and> loc \<noteq> [] \<and> list_all local_class loc
        \<and> (tl = [] \<or> tl = [LF])"
  then obtain loc tl where s: "s = loc @ knox_suffix @ tl" and ne: "loc \<noteq> []"
    and all: "list_all local_class loc" and tl: "tl = [] \<or> tl = [LF]"
    by blast
  have s': "s = loc @ CHR ''@'' # (''knox.edu'' @ tl)" by (simp add: s knox_suffix_def)
  from all have a: "\<And>x. x \<in> set loc \<Longrightarrow> local_class x" by (simp add: list_all_iff)
  have t: "takeWhile local_class s = loc"
    unfolding s' using a not_class_at by (simp add: takeWhile_tail)
  have d: "dropWhile local_class s = knox_suffix @ tl"
    unfolding s' using a not_class_at by (simp add: dropWhile_append3 knox_suffix_def)
  from tl ne show "re_match_knox s"
    by (auto simp add: re_match_knox_def Let_def t d)
qed

text \<open>
  Claim C4. The e-mail predicate holds exactly for the strings whose trimmed content is one
  address: a non-empty local part of letters, digits and the characters . _ % + - followed by
  the domain suffix, the suffix compared up to letter case. Every other string, the empty
  one and those with surrounding text included, is rejected.
\<close>

theorem is_knox_email_iff: "is_knox_email text \<longleftrightarrow> knox_address (py_strip text)"
proof
  assume e: "is_knox_email text"
  define t where "t = py_strip text"
  from e have "re_match_knox (map py_lower_char t)"
    by (simp add: is_knox_email_def py_lower_def t_def split: if_splits)
  then obtain loc tl where m: "map py_lower_char t = loc @ knox_suffix @ tl" and ne: "loc \<noteq> []"
    and all: "list_all local_class loc" and tl: "tl = [] \<or> tl = [LF]"
    unfolding re_match_knox_iff by blast
  have "tl = []"
  proof (rule ccontr)
    assume "tl \<noteq> []"
    with tl have tl': "tl = [LF]" by simp
    from m have tne: "t \<noteq> []" by (auto simp: knox_suffix_def)
    have "last (map py_lower_char t) = LF" by (simp add: m tl')
    with tne have "py_lower_char (last t) = LF" by (simp add: last_map)
    then have "last t = LF" by (rule lower_LF)
    with strip_last [of "text"] tne isspace_LF show False by (simp add: t_def)
  qed
  with m have m': "map py_lower_char t = loc @ knox_suffix"
    by simp
  define us where "us = take (length loc) t"
  define vs where "vs = drop (length loc) t"
  have t: "t = us @ vs"
    by (simp add: us_def vs_def)
  have "map py_lower_char us = take (length loc) (map py_lower_char t)"
    by (simp add: us_def take_map)
  then have l: "loc = map py_lower_char us"
    by (simp add: m')
  have "map py_lower_char vs = drop (length loc) (map py_lower_char t)"
    by (simp add: vs_def drop_map)
  then have d: "map py_lower_char vs = knox_suffix"
    by (simp add: m')
  from all l have "list_all allowed_local_char us"
    by (simp add: list_all_iff class_lower)
  moreover from ne l have "us \<noteq> []" by simp
  ultimately have "t = us @ vs \<and> us \<noteq> [] \<and> list_all allowed_local_char us
      \<and> py_lower vs = knox_suffix"
    using t d by (simp add: py_lower_def)
  then show "knox_address (py_strip text)"
    unfolding knox_address_def t_def [symmetric] by blast
next
  assume "knox_address (py_strip text)"
  then obtain us vs where t: "py_strip text = us @ vs" and ne: "us \<noteq> []"
    and all: "list_all allowed_local_char us" and d: "map py_lower_char vs = knox_suffix"
    unfolding knox_address_def py_lower_def by blast
  from t ne have "text \<noteq> []" using strip_Nil by auto
  moreover have "map py_lower_char (py_strip text) = map py_lower_char us @ knox_suffix @ []"
    by (simp add: t d)
  moreover have "list_all local_class (map py_lower_char us)"
    using all by (simp add: list_all_iff class_lower)
  moreover have "map py_lower_char us \<noteq> []" using ne by simp
  ultimately have "re_match_knox (map py_lower_char (py_strip text))"
    unfolding re_match_knox_iff by blast
  with \<open>text \<noteq> []\<close> show "is_knox_email text"
    by (simp add: is_knox_email_def py_lower_def)
qed

theorem is_knox_email_iff_witness: "is_knox_email ''  Bob.Smith+x@KNOX.edu ''"
proof -
  have "''Bob.Smith+x'' \<noteq> [] \<and> list_all allowed_local_char ''Bob.Smith+x''
      \<and> py_lower ''@KNOX.edu'' = knox_suffix
      \<and> py_strip ''  Bob.Smith+x@KNOX.edu '' = ''Bob.Smith+x'' @ ''@KNOX.edu''"
    by code_simp
  then have k: "knox_address (py_strip ''  Bob.Smith+x@KNOX.edu '')"
    unfolding knox_address_def by (intro exI [of _ "''Bob.Smith+x''"] exI [of _ "''@KNOX.edu''"]) simp
  show ?thesis
    by (rule is_knox_email_iff [THEN iffD2, OF k])
qed

subsection \<open>The onboarding state machine\<close>

lemma get_response_new:
  "conversations s (user_id r) = None \<Longrightarrow>
   get_response e s r =
     (s\<lparr>conversations := (conversations s)
            (user_id r \<mapsto> [\<lparr>role = ''system'', content = system_prompt\<rparr>]),
          student_emails := (student_emails s)(user_id r \<mapsto> None)\<rparr>, Inr (intro, []))"
  by (simp add: get_response_def)

lemma get_response_reprompt:
  "awaiting_email s (user_id r) \<Longrightarrow> \<not> is_knox_email (message r) \<Longrightarrow>
   get_response e s r = (s, Inr (need_email_msg, []))"
  by (auto simp: get_response_def awaiting_email_def)

lemma get_response_capture:
  "awaiting_email s (user_id r) \<Longrightarrow> is_knox_email (message r) \<Longrightarrow>
   get_response e s r =
     (s\<lparr>student_emails := (student_emails s)(user_id r \<mapsto> Some (py_strip (message r)))\<rparr>,
      Inr (confirm_msg (py_strip (message r)), []))"
  by (auto simp: get_response_def awaiting_email_def)

lemma get_response_other:
  "user_id r \<noteq> uid \<Longrightarrow>
   student_emails (fst (get_response e s r)) uid = student_emails s uid
   \<and> conversations (fst (get_response e s r)) uid = conversations s uid"
  by (auto simp: get_response_def Let_def split: option.splits sum.splits if_splits prod.splits)

lemma get_response_email_kept:
  "conversations s uid \<noteq> None \<Longrightarrow> student_emails s uid = Some (Some email) \<Longrightarrow>
   student_emails (fst (get_response e s r)) uid = Some (Some email)
   \<and> conversations (fst (get_response e s r)) uid \<noteq> None"
  by (auto simp: get_response_def Let_def split: option.splits sum.splits if_splits prod.splits)

lemma run_email_kept:
  "conversations s uid \<noteq> None \<Longrightarrow> student_emails s uid = Some (Some email) \<Longrightarrow>
   student_emails (run e s rs) uid = Some (Some email) \<and> conversations (run e s rs) uid \<noteq> None"
proof (induction rs arbitrary: s)
  case Nil
  then show ?case by simp
next
  case (Cons r rs)
  have "student_emails (fst (get_response e s r)) uid = Some (Some email)
      \<and> conversations (fst (get_response e s r)) uid \<noteq> None"
    using Cons.prems by (rule get_response_email_kept)
  with Cons.IH [of "fst (get_response e s r)"] show ?case
    by simp
qed

lemma run_awaiting:
  "awaiting_email s uid \<Longrightarrow>
   \<forall>r \<in> set rs. user_id r = uid \<longrightarrow> \<not> is_knox_email (message r) \<Longrightarrow>
   awaiting_email (run e s rs) uid \<and> conversations (run e s rs) uid = conversations s uid"
proof (induction rs arbitrary: s)
  case Nil
  then show ?case by simp
next
  case (Cons r rs)
  have keep: "awaiting_email (fst (get_response e s r)) uid
      \<and> conversations (fst (get_response e s r)) uid = conversations s uid"
  proof (cases "user_id r = uid")
    case True
    with Cons.prems have "get_response e s r = (s, Inr (need_email_msg, []))"
      by (simp add: get_response_reprompt)
    with Cons.prems show ?thesis by simp
  next
    case False
    with get_response_other [of r uid e s] Cons.prems(1)
    show ?thesis by (simp add: awaiting_email_def)
  qed
  with Cons.IH [of "fst (get_response e s r)"] Cons.prems(2) show ?case
    by simp
qed

lemma run_append: "run e s (a @ b) = run e (run e s a) b"
  by (induction a arbitrary: s) auto

lemma ready_iff:
  "ready s uid \<longleftrightarrow> conversations s uid \<noteq> None \<and> (\<exists>email. student_emails s uid = Some (Some email))"
  by (auto simp: ready_def split: option.splits)

text \<open>
  Claim C6. A session without a captured e-mail stays in the awaiting state across any
  number of non-matching messages, each of which only re-prompts and changes nothing; the
  first matching message moves it to the ready state, and from then on the stored e-mail
  stays what it is, whatever requests follow.
\<close>

theorem onboarding_state_machine:
  assumes aw: "awaiting_email s uid"
    and pre: "\<forall>x \<in> set pre. user_id x = uid \<longrightarrow> \<not> is_knox_email (message x)"
    and r: "user_id r = uid" "is_knox_email (message r)"
  shows "(\<forall>x. user_id x = uid \<and> \<not> is_knox_email (message x) \<longrightarrow>
            get_response e s x = (s, Inr (need_email_msg, [])))
       \<and> awaiting_email (run e s pre) uid
       \<and> ready (run e s (pre @ [r])) uid
       \<and> student_emails (run e s (pre @ r # post)) uid = Some (Some (py_strip (message r)))"
proof -
  have step: "\<forall>x. user_id x = uid \<and> \<not> is_knox_email (message x) \<longrightarrow>
            get_response e s x = (s, Inr (need_email_msg, []))"
    using aw get_response_reprompt by blast
  define s1 where "s1 = run e s pre"
  have aw1: "awaiting_email s1 uid"
    unfolding s1_def using run_awaiting [OF aw pre] by simp
  define s2 where "s2 = s1\<lparr>student_emails := (student_emails s1)(uid \<mapsto> Some (py_strip (message r)))\<rparr>"
  have g: "get_response e s1 r = (s2, Inr (confirm_msg (py_strip (message r)), []))"
    using get_response_capture [of s1 r e] aw1 r by (simp add: s2_def)
  have run1: "run e s (pre @ [r]) = s2"
    by (simp add: run_append s1_def [symmetric] g)
  have c2: "conversations s2 uid \<noteq> None"
    using aw1 by (simp add: s2_def awaiting_email_def)
  have e2: "student_emails s2 uid = Some (Some (py_strip (message r)))"
    by (simp add: s2_def)
  have rd: "ready s2 uid"
    using c2 e2 by (simp add: ready_iff)
  have "run e s (pre @ r # post) = run e s2 post"
    using run1 run_append [of e s "pre @ [r]" post] by simp
  then have "student_emails (run e s (pre @ r # post)) uid = Some (Some (py_strip (message r)))"
    using run_email_kept [OF c2 e2, of e post] by simp
  with step aw1 rd run1 show ?thesis
    by (simp add: s1_def)
qed

lemma question_is_no_email: "\<not> is_knox_email ''When is math?''"
  by code_simp
lemma padded_address_is_email: "is_knox_email '' Bob@Knox.edu ''"
  by code_simp
lemma padded_address_stripped: "py_strip '' Bob@Knox.edu '' = ''Bob@Knox.edu''"
  by code_simp

theorem onboarding_state_machine_witness:
  "student_emails
     (run demo_env (run demo_env initial_state [req ''u1'' ''hello''])
        ([req ''u1'' ''When is math?''] @ req ''u1'' '' Bob@Knox.edu '' # [req ''u1'' ''Hi'']))
     ''u1'' = Some (Some ''Bob@Knox.edu'')"
proof -
  define s where "s = run demo_env initial_state [req ''u1'' ''hello'']"
  have g: "get_response demo_env initial_state (req ''u1'' ''hello'') =
      (initial_state\<lparr>conversations := (conversations initial_state)
              (''u1'' \<mapsto> [\<lparr>role = ''system'', content = system_prompt\<rparr>]),
            student_emails := (student_emails initial_state)(''u1'' \<mapsto> None)\<rparr>, Inr (intro, []))"
    using get_response_new [of initial_state "req ''u1'' ''hello''" demo_env]
    by (simp add: initial_state_def req_def)
  have aw: "awaiting_email s ''u1''"
    by (simp add: s_def g awaiting_email_def)
  have pre: "\<forall>x \<in> set [req ''u1'' ''When is math?'']. user_id x = ''u1'' \<longrightarrow> \<not> is_knox_email (message x)"
    using question_is_no_email by (simp add: req_def)
  have r: "user_id (req ''u1'' '' Bob@Knox.edu '') = ''u1''" "is_knox_email (message (req ''u1'' '' Bob@Knox.edu ''))"
    using padded_address_is_email by (simp_all add: req_def)
  have st: "py_strip (message (req ''u1'' '' Bob@Knox.edu '')) = ''Bob@Knox.edu''"
    using padded_address_stripped by (simp add: req_def)
  note t = onboarding_state_machine [OF aw pre r, of demo_env "[req ''u1'' ''Hi'']"]
  show ?thesis
    using t [THEN conjunct2, THEN conjunct2, THEN conjunct2]
    unfolding st s_def .
qed

subsection \<open>The shape of a history\<close>

lemma step_roles:
  assumes "\<not> (user_id r = uid \<and> ready s uid \<and> isl (snd (get_response e s r)))"
  shows "(case conversations (fst (get_response e s r)) uid of
            None \<Rightarrow> [''system''] | Some h \<Rightarrow> map role h) =
         (case conversations s uid of None \<Rightarrow> [''system''] | Some h \<Rightarrow> map role h)
           @ (if user_id r = uid \<and> ready s uid then [''user'', ''assistant''] else [])"
  using assms
  by (auto simp: get_response_def chatbot_def ready_def Let_def
      split: option.splits sum.splits if_splits prod.splits)

lemma run_roles:
  "raised_turns e s rs uid = 0 \<Longrightarrow>
   (case conversations (run e s rs) uid of None \<Rightarrow> [''system''] | Some h \<Rightarrow> map role h) =
   (case conversations s uid of None \<Rightarrow> [''system''] | Some h \<Rightarrow> map role h)
     @ concat (replicate (ready_turns e s rs uid) [''user'', ''assistant''])"
proof (induction rs arbitrary: s)
  case Nil
  show ?case by simp
next
  case (Cons r rs)
  from Cons.prems have ok: "\<not> (user_id r = uid \<and> ready s uid \<and> isl (snd (get_response e s r)))"
    and rest: "raised_turns e (fst (get_response e s r)) rs uid = 0"
    by (auto split: if_splits)
  show ?case
    using Cons.IH [OF rest] step_roles [OF ok]
    by (simp add: replicate_add)
qed

lemma first_contact_history:
  assumes "conversations s (user_id r) = None"
  shows "\<exists>s'. get_response e s r = (s', Inr (intro, []))
           \<and> conversations s' (user_id r) = Some [\<lparr>role = ''system'', content = system_prompt\<rparr>]"
  using assms by (simp add: get_response_def)

lemma onboarding_turn_keeps_history:
  assumes "conversations s (user_id r) \<noteq> None" and "\<not> ready s (user_id r)"
  shows "conversations (fst (get_response e s r)) = conversations s"
  using assms
  by (auto simp: get_response_def ready_def Let_def
      split: option.splits sum.splits if_splits prod.splits)

lemma ready_turn_appends:
  assumes "ready s (user_id r)" and "conversations s (user_id r) = Some h0"
    and "get_context (message r) (index e) (embed_model e) (chunks e) 5 = Inr (context, distances)"
    and "chat e (h0 @ [\<lparr>role = ''user'',
                        content = ''Use this context to answer:\<newline>'' @ context
                          @ ''\<newline>\<newline>Question: '' @ message r\<rparr>]) = Inr reply"
  shows "\<exists>resp tasks.
           get_response e s r =
             (s\<lparr>conversations := (conversations s)
                  (user_id r \<mapsto>
                     h0 @ [\<lparr>role = ''user'',
                            content = ''Use this context to answer:\<newline>'' @ context
                              @ ''\<newline>\<newline>Question: '' @ message r\<rparr>,
                          \<lparr>role = ''assistant'', content = reply\<rparr>])\<rparr>,
              Inr (resp, tasks))"
  using assms
  by (auto simp: get_response_def chatbot_def ready_def Let_def
      split: option.splits sum.splits if_splits prod.splits)

lemma failed_generation_keeps_user_message:
  assumes "ready s (user_id r)" and "conversations s (user_id r) = Some h0"
    and "get_context (message r) (index e) (embed_model e) (chunks e) 5 = Inr (context, distances)"
    and "chat e (h0 @ [\<lparr>role = ''user'',
                        content = ''Use this context to answer:\<newline>'' @ context
                          @ ''\<newline>\<newline>Question: '' @ message r\<rparr>]) = Inl err"
  shows "get_response e s r =
           (s\<lparr>conversations := (conversations s)
                (user_id r \<mapsto>
                   h0 @ [\<lparr>role = ''user'',
                          content = ''Use this context to answer:\<newline>'' @ context
                            @ ''\<newline>\<newline>Question: '' @ message r\<rparr>])\<rparr>,
            Inl err)"
  using assms
  by (auto simp: get_response_def chatbot_def ready_def Let_def
      split: option.splits sum.splits if_splits prod.splits)

text \<open>
  Claim C10, as amended. A history starts with the one system message created at first
  contact; onboarding turns append nothing; a ready-state turn whose retrieval and
  generation return appends the user message that wraps the retrieved context and the
  question, then the assistant message with the generated reply. After any sequence of
  requests in which no ready-state turn of the user raised, the history has 1 + 2 n
  entries, n the number of ready-state turns of the user.
\<close>

theorem history_shape:
  "(conversations (run e initial_state rs) uid = Some h
      \<and> raised_turns e initial_state rs uid = 0 \<longrightarrow>
      map role h = ''system'' # concat (replicate (ready_turns e initial_state rs uid)
                                          [''user'', ''assistant''])
      \<and> length h = 1 + 2 * ready_turns e initial_state rs uid)
   \<and> (conversations s (user_id r) = None \<longrightarrow>
        (\<exists>s'. get_response e s r = (s', Inr (intro, []))
           \<and> conversations s' (user_id r) = Some [\<lparr>role = ''system'', content = system_prompt\<rparr>]))
   \<and> (conversations s (user_id r) \<noteq> None \<and> \<not> ready s (user_id r) \<longrightarrow>
        conversations (fst (get_response e s r)) = conversations s)
   \<and> (ready s (user_id r) \<and> conversations s (user_id r) = Some h0
        \<and> get_context (message r) (index e) (embed_model e) (chunks e) 5 = Inr (context, distances)
        \<and> chat e (h0 @ [\<lparr>role = ''user'',
                           content = ''Use this context to answer:\<newline>'' @ context
                             @ ''\<newline>\<newline>Question: '' @ message r\<rparr>]) = Inr reply \<longrightarrow>
        (\<exists>resp tasks.
           get_response e s r =
             (s\<lparr>conversations := (conversations s)
                  (user_id r \<mapsto>
                     h0 @ [\<lparr>role = ''user'',
                            content = ''Use this context to answer:\<newline>'' @ context
                              @ ''\<newline>\<newline>Question: '' @ message r\<rparr>,
                          \<lparr>role = ''assistant'', content = reply\<rparr>])\<rparr>,
              Inr (resp, tasks))))"
proof -
  have seq: "conversations (run e initial_state rs) uid = Some h
      \<and> raised_turns e initial_state rs uid = 0 \<longrightarrow>
      map role h = ''system'' # concat (replicate (ready_turns e initial_state rs uid)
                                          [''user'', ''assistant''])
      \<and> length h = 1 + 2 * ready_turns e initial_state rs uid"
  proof
    assume a: "conversations (run e initial_state rs) uid = Some h
      \<and> raised_turns e initial_state rs uid = 0"
    then have h: "conversations (run e initial_state rs) uid = Some h"
      and z: "raised_turns e initial_state rs uid = 0"
      by simp_all
    have roles: "map role h = ''system'' # concat (replicate (ready_turns e initial_state rs uid)
                                          [''user'', ''assistant''])"
      using run_roles [OF z] h by (simp add: initial_state_def)
    have "length h = length (map role h)"
      by simp
    also have "\<dots> = 1 + 2 * ready_turns e initial_state rs uid"
      unfolding roles by (simp add: length_concat sum_list_replicate)
    finally have len: "length h = 1 + 2 * ready_turns e initial_state rs uid" .
    from roles len show "map role h = ''system'' # concat (replicate (ready_turns e initial_state rs uid)
                                          [''user'', ''assistant''])
      \<and> length h = 1 + 2 * ready_turns e initial_state rs uid"
      by (rule conjI)
  qed
  have first: "conversations s (user_id r) = None \<longrightarrow>
        (\<exists>s'. get_response e s r = (s', Inr (intro, []))
           \<and> conversations s' (user_id r) = Some [\<lparr>role = ''system'', content = system_prompt\<rparr>])"
    by (rule impI) (rule first_contact_history)
  have onb: "conversations s (user_id r) \<noteq> None \<and> \<not> ready s (user_id r) \<longrightarrow>
        conversations (fst (get_response e s r)) = conversations s"
  proof
    assume a: "conversations s (user_id r) \<noteq> None \<and> \<not> ready s (user_id r)"
    show "conversations (fst (get_response e s r)) = conversations s"
      by (rule onboarding_turn_keeps_history [OF a [THEN conjunct1] a [THEN conjunct2]])
  qed
  have turn: "ready s (user_id r) \<and> conversations s (user_id r) = Some h0
        \<and> get_context (message r) (index e) (embed_model e) (chunks e) 5 = Inr (context, distances)
        \<and> chat e (h0 @ [\<lparr>role = ''user'',
                           content = ''Use this context to answer:\<newline>'' @ context
                             @ ''\<newline>\<newline>Question: '' @ message r\<rparr>]) = Inr reply \<longrightarrow>
        (\<exists>resp tasks.
           get_response e s r =
             (s\<lparr>conversations := (conversations s)
                  (user_id r \<mapsto>
                     h0 @ [\<lparr>role = ''user'',
                            content = ''Use this context to answer:\<newline>'' @ context
                              @ ''\<newline>\<newline>Question: '' @ message r\<rparr>,
                          \<lparr>role = ''assistant'', content = reply\<rparr>])\<rparr>,
              Inr (resp, tasks)))"
  proof
    assume a: "ready s (user_id r) \<and> conversations s (user_id r) = Some h0
        \<and> get_context (message r) (index e) (embed_model e) (chunks e) 5 = Inr (context, distances)
        \<and> chat e (h0 @ [\<lparr>role = ''user'',
                           content = ''Use this context to answer:\<newline>'' @ context
                             @ ''\<newline>\<newline>Question: '' @ message r\<rparr>]) = Inr reply"
    show "\<exists>resp tasks.
           get_response e s r =
             (s\<lparr>conversations := (conversations s)
                  (user_id r \<mapsto>
                     h0 @ [\<lparr>role = ''user'',
                            content = ''Use this context to answer:\<newline>'' @ context
                              @ ''\<newline>\<newline>Question: '' @ message r\<rparr>,
                          \<lparr>role = ''assistant'', content = reply\<rparr>])\<rparr>,
              Inr (resp, tasks))"
      by (rule ready_turn_appends [OF a [THEN conjunct1] a [THEN conjunct2, THEN conjunct1]
            a [THEN conjunct2, THEN conjunct2, THEN conjunct1]
            a [THEN conjunct2, THEN conjunct2, THEN conjunct2]])
  qed
  from seq first onb turn show ?thesis
    by (intro conjI)
qed

text \<open>
  The claim as stated fails where a generation call raises: the user message appended
  before the call stays, so one ready-state turn leaves a history of two entries.
\<close>

theorem history_shape_counterexample:
  "length (the (conversations
       (run failing_env initial_state
          [req ''u1'' ''hello'', req ''u1'' ''bob@knox.edu'', req ''u1'' ''When is math?''])
       ''u1'')) = 2
   \<and> ready_turns failing_env initial_state
        [req ''u1'' ''hello'', req ''u1'' ''bob@knox.edu'', req ''u1'' ''When is math?''] ''u1'' = 1
   \<and> map role (the (conversations
       (run failing_env initial_state
          [req ''u1'' ''hello'', req ''u1'' ''bob@knox.edu'', req ''u1'' ''When is math?''])
       ''u1'')) = [''system'', ''user'']"
  by code_simp

theorem history_shape_witness:
  "length (the (conversations
       (run demo_env initial_state
          [req ''u1'' ''hello'', req ''u1'' ''bob@knox.edu'', req ''u1'' ''When is math?''])
       ''u1'')) = 3"
proof -
  define rs where "rs = [req ''u1'' ''hello'', req ''u1'' ''bob@knox.edu'', req ''u1'' ''When is math?'']"
  have ne: "conversations (run demo_env initial_state rs) ''u1'' \<noteq> None"
    unfolding rs_def by code_simp
  have n: "ready_turns demo_env initial_state rs ''u1'' = 1"
    unfolding rs_def by code_simp
  have z: "raised_turns demo_env initial_state rs ''u1'' = 0"
    unfolding rs_def by code_simp
  from ne [unfolded not_None_eq] obtain h
    where h: "conversations (run demo_env initial_state rs) ''u1'' = Some h" ..
  have "length h = 1 + 2 * ready_turns demo_env initial_state rs ''u1''"
    using history_shape [of demo_env rs "''u1''" h, THEN conjunct1, rule_format, OF conjI [OF h z]]
    by (rule conjunct2)
  then have "length h = 3"
    unfolding n by simp
  then show ?thesis
    unfolding rs_def [symmetric] h option.sel .
qed

subsection \<open>The reply of a ready-state turn\<close>



subsection \<open>Reading and writing the escalation log\<close>

lemma universal_newlines_id: "CR \<notin> set s \<Longrightarrow> universal_newlines s = s"
  by (induction s rule: universal_newlines.induct) auto

lemma lines_from_line:
  "LF \<notin> set l \<Longrightarrow> lines_from cur (l @ LF # rest) = (cur @ l @ [LF]) # lines_from [] rest"
  by (induction l arbitrary: cur) auto

lemma lines_from_tail:
  "LF \<notin> set l \<Longrightarrow> lines_from cur l = (if cur @ l = [] then [] else [cur @ l])"
  by (induction l arbitrary: cur) auto

lemma lines_from_log_text:
  "\<forall>l \<in> set ls. LF \<notin> set l \<Longrightarrow> LF \<notin> set tail \<Longrightarrow>
   lines_from [] (log_text ls @ tail) = map (\<lambda>l. l @ [LF]) ls @ (if tail = [] then [] else [tail])"
proof (induction ls)
  case Nil
  then show ?case by (simp add: log_text_def lines_from_tail)
next
  case (Cons l ls)
  have "log_text (l # ls) @ tail = l @ LF # (log_text ls @ tail)"
    by (simp add: log_text_def)
  with Cons show ?case
    by (simp add: lines_from_line)
qed

lemma CR_log_text: "CR \<in> set (log_text ls) \<longleftrightarrow> (\<exists>l \<in> set ls. CR \<in> set l)"
  by (auto simp: log_text_def CR_def LF_def)

lemma file_lines_log_text:
  assumes "\<forall>l \<in> set ls. LF \<notin> set l \<and> CR \<notin> set l" and "LF \<notin> set tail" and "CR \<notin> set tail"
  shows "file_lines (log_text ls @ tail) = map (\<lambda>l. l @ [LF]) ls @ (if tail = [] then [] else [tail])"
proof -
  from assms have "CR \<notin> set (log_text ls @ tail)"
    by (auto simp: CR_log_text)
  then have "universal_newlines (log_text ls @ tail) = log_text ls @ tail"
    by (rule universal_newlines_id)
  with assms show ?thesis
    by (simp add: file_lines_def lines_from_log_text)
qed

lemma strip_line: "py_strip (l @ [LF]) = py_strip l"
proof (cases "\<forall>c \<in> set l. py_isspace c")
  case True
  then have "\<forall>c \<in> set (l @ [LF]). py_isspace c"
    using isspace_LF by simp
  then have "dropWhile py_isspace (l @ [LF]) = []"
    by (rule dropWhile_eq_Nil_conv [THEN iffD2])
  moreover from True have "dropWhile py_isspace l = []"
    by (rule dropWhile_eq_Nil_conv [THEN iffD2])
  ultimately show ?thesis by (simp only: py_strip_def)
next
  case False
  then have "dropWhile py_isspace (l @ [LF]) = dropWhile py_isspace l @ [LF]"
    by (auto simp: dropWhile_append1)
  then show ?thesis
    using isspace_LF by (simp add: py_strip_def)
qed

lemma read_records_strip:
  "map py_strip xs = map py_strip ys \<Longrightarrow> read_records loads xs = read_records loads ys"
proof (induction xs arbitrary: ys)
  case Nil
  then show ?case by simp
next
  case (Cons x xs)
  then obtain y ys' where ys: "ys = y # ys'" and x: "py_strip x = py_strip y"
    and rest: "map py_strip xs = map py_strip ys'"
    by (cases ys) auto
  from Cons.IH [OF rest] show ?case
    by (simp add: ys x Let_def split: sum.splits)
qed

lemma read_records_lines:
  "read_records loads (map (\<lambda>l. l @ [LF]) ls @ tail) = read_records loads (ls @ tail)"
  by (rule read_records_strip) (simp add: strip_line comp_def)

lemma read_records_skip:
  assumes "py_strip bad = [] \<or> loads (py_strip bad) = Inl JSONDecodeError"
  shows "read_records loads (a @ bad # b) = read_records loads (a @ b)"
proof (induction a)
  case Nil
  from assms show ?case by (auto simp: Let_def)
next
  case (Cons x a)
  then show ?case by (simp add: Let_def split: sum.splits)
qed

lemma read_records_parsed:
  assumes "\<forall>l \<in> set ls. py_strip l = [] \<or> loads (py_strip l) = Inl JSONDecodeError
             \<or> \<not> isl (loads (py_strip l))"
  shows "read_records loads ls =
           Inr (List.map_filter
                  (\<lambda>l. if py_strip l = [] then None
                       else (case loads (py_strip l) of Inr v \<Rightarrow> Some v | Inl err \<Rightarrow> None))
                  ls)"
  using assms
proof (induction ls)
  case Nil
  show ?case by (simp add: List.map_filter_simps)
next
  case (Cons l ls)
  then have rest: "read_records loads ls =
           Inr (List.map_filter
                  (\<lambda>l. if py_strip l = [] then None
                       else (case loads (py_strip l) of Inr v \<Rightarrow> Some v | Inl err \<Rightarrow> None))
                  ls)"
    and l: "py_strip l = [] \<or> loads (py_strip l) = Inl JSONDecodeError \<or> \<not> isl (loads (py_strip l))"
    by simp_all
  show ?case
  proof (cases "loads (py_strip l)")
    case (Inl err)
    with l have "py_strip l = [] \<or> err = JSONDecodeError"
      by auto
    with Inl rest show ?thesis
      by (auto simp: Let_def List.map_filter_simps)
  next
    case (Inr v)
    with rest show ?thesis
      by (simp add: Let_def List.map_filter_simps)
  qed
qed

lemma load_log_text:
  assumes "\<forall>l \<in> set ls. LF \<notin> set l \<and> CR \<notin> set l" and "LF \<notin> set tail" and "CR \<notin> set tail"
  shows "load_escalations loads (Content (log_text ls @ tail)) = read_records loads (ls @ [tail])"
proof -
  have "read_records loads (map (\<lambda>l. l @ [LF]) ls @ (if tail = [] then [] else [tail]))
      = read_records loads (ls @ (if tail = [] then [] else [tail]))"
    by (rule read_records_lines)
  also have "\<dots> = read_records loads (ls @ [tail])"
    using read_records_skip [of "[]" loads ls "[]"] by (simp add: strip_Nil)
  finally show ?thesis
    using file_lines_log_text [OF assms]
    by (simp add: load_escalations_def)
qed

lemma load_log_lines:
  assumes "\<forall>l \<in> set ls. LF \<notin> set l \<and> CR \<notin> set l"
  shows "load_escalations loads (Content (log_text ls)) = read_records loads ls"
  using load_log_text [OF assms, of "[]" loads] read_records_skip [of "[]" loads ls "[]"]
  by (simp add: strip_Nil)

text \<open>
  Claim C8. When the log is read, a blank line and a line on which the parser raises
  \<^verbatim>\<open>JSONDecodeError\<close> are skipped one by one, the lines before and after them being read as
  if they were not there (also a last line cut off before its newline), and where every
  other line is blank, raises that same exception or parses, the records read are the
  parsed lines in their order; a missing file gives the empty list.
\<close>

theorem corrupt_lines_skipped:
  assumes "\<forall>l \<in> set (before @ bad # after). LF \<notin> set l \<and> CR \<notin> set l"
    and "py_strip bad = [] \<or> loads (py_strip bad) = Inl JSONDecodeError"
  shows "load_escalations loads Missing = Inr []
       \<and> load_escalations loads (Content (log_text (before @ bad # after)))
           = load_escalations loads (Content (log_text (before @ after)))
       \<and> load_escalations loads (Content (log_text before @ bad))
           = load_escalations loads (Content (log_text before))
       \<and> ((\<forall>l \<in> set (before @ after).
               py_strip l = [] \<or> loads (py_strip l) = Inl JSONDecodeError
               \<or> \<not> isl (loads (py_strip l)))
            \<longrightarrow> load_escalations loads (Content (log_text (before @ bad # after)))
                 = Inr (List.map_filter
                          (\<lambda>l. if py_strip l = [] then None
                               else (case loads (py_strip l) of
                                       Inr v \<Rightarrow> Some v | Inl err \<Rightarrow> None))
                          (before @ after)))"
proof -
  have all: "\<forall>l \<in> set (before @ bad # after). LF \<notin> set l \<and> CR \<notin> set l"
    and rest: "\<forall>l \<in> set (before @ after). LF \<notin> set l \<and> CR \<notin> set l"
    and bef: "\<forall>l \<in> set before. LF \<notin> set l \<and> CR \<notin> set l"
    and bad: "LF \<notin> set bad" "CR \<notin> set bad"
    using assms(1) by auto
  have missing: "load_escalations loads Missing = Inr []"
    by (simp add: load_escalations_def)
  have mid: "load_escalations loads (Content (log_text (before @ bad # after)))
           = load_escalations loads (Content (log_text (before @ after)))"
    unfolding load_log_lines [OF all] load_log_lines [OF rest]
    using assms(2) by (rule read_records_skip)
  have "read_records loads (before @ bad # []) = read_records loads (before @ [])"
    using assms(2) by (rule read_records_skip)
  then have last: "load_escalations loads (Content (log_text before @ bad))
           = load_escalations loads (Content (log_text before))"
    unfolding load_log_text [OF bef bad] load_log_lines [OF bef] by simp
  have parsed: "load_escalations loads (Content (log_text (before @ bad # after)))
                 = Inr (List.map_filter
                          (\<lambda>l. if py_strip l = [] then None
                               else (case loads (py_strip l) of
                                       Inr v \<Rightarrow> Some v | Inl err \<Rightarrow> None))
                          (before @ after))"
    if "\<forall>l \<in> set (before @ after).
               py_strip l = [] \<or> loads (py_strip l) = Inl JSONDecodeError
               \<or> \<not> isl (loads (py_strip l))"
    unfolding mid load_log_lines [OF rest] using that by (rule read_records_parsed)
  from missing mid last parsed show ?thesis
    by (intro conjI impI)
qed

text \<open>
  A line nested too deeply to be parsed raises \<^verbatim>\<open>RecursionError\<close>, which is not caught: the
  two records around it are lost with it. A file whose bytes are not UTF-8 cannot be read
  at all.
\<close>

lemma deep_line_head: "deep_line = CHR ''['' # replicate 99999 CHR ''[''"
proof -
  have "(100000::nat) = Suc 99999"
    by simp
  then have "replicate 100000 CHR ''['' = replicate (Suc 99999) CHR ''[''"
    by (rule arg_cong)
  then show ?thesis
    by (simp only: deep_line_def replicate_Suc)
qed

lemma deep_line_rev: "rev deep_line = deep_line"
  by (simp only: deep_line_def rev_replicate)

lemma deep_line_strip: "py_strip deep_line = deep_line"
proof -
  have sp: "\<not> py_isspace CHR ''[''"
    by code_simp
  have "dropWhile py_isspace (CHR ''['' # replicate 99999 CHR ''['')
      = CHR ''['' # replicate 99999 CHR ''[''"
    using sp by (simp only: dropWhile.simps if_False)
  then have d: "dropWhile py_isspace deep_line = deep_line"
    by (simp only: deep_line_head [symmetric])
  show ?thesis
    by (simp only: py_strip_def d deep_line_rev)
qed

lemma deep_line_chars: "LF \<notin> set deep_line \<and> CR \<notin> set deep_line"
  by (simp add: deep_line_def LF_def CR_def)

lemma deep_line_raises: "demo_loads deep_line = Inl RecursionError"
proof -
  have "deep_line \<noteq> CHR ''{'' # s" for s
    by (simp only: deep_line_head list.inject char.inject) simp
  then show ?thesis
    by (simp add: demo_loads_def)
qed

lemma record_lines:
  "py_strip ''{\"record\": 1}'' = ''{\"record\": 1}''"
  "py_strip ''{\"record\": 2}'' = ''{\"record\": 2}''"
  "py_strip ''{\"record\": 3}'' = ''{\"record\": 3}''"
  "demo_loads ''{\"record\": 1}'' = Inr (payload ''2024-05-01T10:00:00'' demo_task)"
  "demo_loads ''{\"record\": 2}'' = Inr (payload ''2024-05-01T11:30:00'' demo_task)"
  "demo_loads ''{\"record\": 3}'' = Inr (payload ''2024-05-01T12:00:00'' script_task)"
  by (code_simp, code_simp, code_simp) (simp_all add: demo_loads_def)

theorem corrupt_lines_skipped_counterexample:
  "load_escalations demo_loads
     (Content (log_text [''{\"record\": 1}'', deep_line, ''{\"record\": 2}'']))
     = Inl RecursionError
   \<and> load_escalations demo_loads (Content (log_text [''{\"record\": 1}'', ''{\"record\": 2}'']))
     = Inr [payload ''2024-05-01T10:00:00'' demo_task, payload ''2024-05-01T11:30:00'' demo_task]
   \<and> load_escalations demo_loads (Unreadable UnicodeDecodeError) = Inl UnicodeDecodeError"
proof -
  have a: "\<forall>l \<in> set [''{\"record\": 1}'', deep_line, ''{\"record\": 2}''].
             LF \<notin> set l \<and> CR \<notin> set l"
    using deep_line_chars by (simp add: LF_def CR_def)
  have b: "\<forall>l \<in> set [''{\"record\": 1}'', ''{\"record\": 2}'']. LF \<notin> set l \<and> CR \<notin> set l"
    by (simp add: LF_def CR_def)
  have deep: "deep_line \<noteq> []"
    by (simp only: deep_line_head) simp
  have "read_records demo_loads [''{\"record\": 1}'', deep_line, ''{\"record\": 2}'']
      = Inl RecursionError"
    by (simp add: record_lines deep_line_strip deep_line_raises deep Let_def)
  moreover have "read_records demo_loads [''{\"record\": 1}'', ''{\"record\": 2}'']
      = Inr [payload ''2024-05-01T10:00:00'' demo_task, payload ''2024-05-01T11:30:00'' demo_task]"
    by (simp add: record_lines Let_def)
  ultimately show ?thesis
    by (simp only: load_log_lines [OF a] load_log_lines [OF b])
       (simp add: load_escalations_def)
qed

lemma truncated_line_fails: "demo_loads (py_strip ''{\"recor'') = Inl JSONDecodeError"
proof -
  have "py_strip ''{\"recor'' = ''{\"recor''"
    by code_simp
  moreover have "''{\"recor'' \<noteq> deep_line"
    by (simp only: deep_line_head list.inject char.inject) simp
  ultimately show ?thesis
    by (simp add: demo_loads_def)
qed

theorem corrupt_lines_skipped_witness:
  "load_escalations demo_loads
     (Content (log_text ([''{\"record\": 1}''] @ ''{\"recor'' # [''{\"record\": 2}''])))
   = Inr [payload ''2024-05-01T10:00:00'' demo_task, payload ''2024-05-01T11:30:00'' demo_task]"
proof -
  have a: "\<forall>l \<in> set ([''{\"record\": 1}''] @ ''{\"recor'' # [''{\"record\": 2}'']).
             LF \<notin> set l \<and> CR \<notin> set l"
    by (simp add: LF_def CR_def)
  have b: "py_strip ''{\"recor'' = [] \<or> demo_loads (py_strip ''{\"recor'') = Inl JSONDecodeError"
    using truncated_line_fails by (rule disjI2)
  have c: "\<forall>l \<in> set ([''{\"record\": 1}''] @ [''{\"record\": 2}'']).
             py_strip l = [] \<or> demo_loads (py_strip l) = Inl JSONDecodeError
             \<or> \<not> isl (demo_loads (py_strip l))"
    by (simp add: record_lines)
  have "load_escalations demo_loads
          (Content (log_text ([''{\"record\": 1}''] @ ''{\"recor'' # [''{\"record\": 2}''])))
      = Inr (List.map_filter
               (\<lambda>l. if py_strip l = [] then None
                    else (case demo_loads (py_strip l) of Inr v \<Rightarrow> Some v | Inl err \<Rightarrow> None))
               ([''{\"record\": 1}''] @ [''{\"record\": 2}'']))"
    using corrupt_lines_skipped
      [of "[''{\"record\": 1}'']" "''{\"recor''" "[''{\"record\": 2}'']" demo_loads, OF a b]
      c
    by (elim conjE impE) assumption+
  then show ?thesis
    by (simp add: List.map_filter_simps record_lines)
qed







subsection \<open>The review page\<close>

lemma escape_lt_clean: "CHR ''<'' \<notin> set (escape_lt s)"
  by (induction s) (auto simp: escape_lt_def)

lemma script_row:
  "row_fields demo_py_str demo_show_avg (payload ''2024-05-01T12:00:00'' script_task)
     = Inr \<lparr>row_ts = ''2024-05-01T12:00:00Z'', row_user_id = ''<script>alert(1)</script>'',
             row_email = ''bob@knox.edu'', row_avg_dist = ''1.375'',
             row_question = ''Is 2 &lt; 3?'', row_reply = ''No idea'',
             row_context_preview = ''Math tutoring: Mon 3pm'' @ ellipsis\<rparr>"
  by code_simp

lemma plain_row:
  "row_fields demo_py_str demo_show_avg (payload ''2024-05-01T10:00:00'' demo_task)
     = Inr \<lparr>row_ts = ''2024-05-01T10:00:00Z'', row_user_id = ''u1'',
             row_email = ''bob@knox.edu'', row_avg_dist = ''1.375'',
             row_question = ''Is 2 &lt; 3?'', row_reply = ''No idea'',
             row_context_preview = ''Math tutoring: Mon 3pm'' @ ellipsis\<rparr>"
  by code_simp

lemma sublist_skip: "sublist xs ys \<Longrightarrow> sublist xs (zs @ ys)"
proof -
  assume "sublist xs ys"
  then obtain ps ss where "ys = ps @ xs @ ss"
    unfolding sublist_def by blast
  then have "zs @ ys = (zs @ ps) @ xs @ ss"
    by simp
  then show ?thesis
    unfolding sublist_def by blast
qed

lemma sublist_segments: "sublist (a @ b @ c) (a @ b @ c @ rest)"
proof -
  have "a @ b @ c @ rest = [] @ (a @ b @ c) @ rest"
    by simp
  then show ?thesis
    unfolding sublist_def by blast
qed

lemma page_html_rows: "sublist rows (page_html rows)"
  unfolding page_html_def
  by (rule sublist_append_rightI | rule sublist_skip)+

lemma row_html_user_id:
  "sublist (''            <div><b>User ID:</b> '' @ uid @ ''</div>\<newline>'')
     (row_html ts uid email avg q r c)"
  unfolding row_html_def
  by (rule sublist_segments | rule sublist_skip)+

lemma page_shows_user_id:
  "sublist (''            <div><b>User ID:</b> '' @ uid @ ''</div>\<newline>'')
     (page_html (row_html ts uid email avg q r c @ older))"
proof -
  have "sublist (''            <div><b>User ID:</b> '' @ uid @ ''</div>\<newline>'')
          (row_html ts uid email avg q r c)"
    by (rule row_html_user_id)
  also have "sublist (row_html ts uid email avg q r c) (row_html ts uid email avg q r c @ older)"
    by (rule sublist_append_rightI)
  also have "sublist (row_html ts uid email avg q r c @ older)
               (page_html (row_html ts uid email avg q r c @ older))"
    by (rule page_html_rows)
  finally show ?thesis .
qed

text \<open>
  Claim C9. The page shows the newer record first, the \<open><\<close> of the question is replaced
  and the context is followed by the ellipsis marker; the user id of the record, a text
  the client of the chat endpoint chooses, is inserted as it is, and the markup in it is
  part of the page returned.
\<close>

theorem review_page_user_id_raw:
  "review_escalations demo_loads demo_py_str demo_show_avg
     (Content (log_text [''{\"record\": 1}'', ''{\"record\": 3}'']))
   = Inr (page_html
        (row_html ''2024-05-01T12:00:00Z'' ''<script>alert(1)</script>'' ''bob@knox.edu''
           ''1.375'' ''Is 2 &lt; 3?'' ''No idea'' (''Math tutoring: Mon 3pm'' @ ellipsis)
         @ row_html ''2024-05-01T10:00:00Z'' ''u1'' ''bob@knox.edu''
           ''1.375'' ''Is 2 &lt; 3?'' ''No idea'' (''Math tutoring: Mon 3pm'' @ ellipsis)))
   \<and> sublist (''            <div><b>User ID:</b> '' @ ''<script>alert(1)</script>''
                @ ''</div>\<newline>'')
       (page_html
        (row_html ''2024-05-01T12:00:00Z'' ''<script>alert(1)</script>'' ''bob@knox.edu''
           ''1.375'' ''Is 2 &lt; 3?'' ''No idea'' (''Math tutoring: Mon 3pm'' @ ellipsis)
         @ row_html ''2024-05-01T10:00:00Z'' ''u1'' ''bob@knox.edu''
           ''1.375'' ''Is 2 &lt; 3?'' ''No idea'' (''Math tutoring: Mon 3pm'' @ ellipsis)))"
proof -
  have a: "\<forall>l \<in> set [''{\"record\": 1}'', ''{\"record\": 3}'']. LF \<notin> set l \<and> CR \<notin> set l"
    by (simp add: LF_def CR_def)
  have data: "load_escalations demo_loads (Content (log_text [''{\"record\": 1}'', ''{\"record\": 3}'']))
      = Inr [payload ''2024-05-01T10:00:00'' demo_task, payload ''2024-05-01T12:00:00'' script_task]"
    unfolding load_log_lines [OF a] by (simp add: record_lines Let_def)
  have row: "row_html ts uid email avg q r c \<noteq> []" for ts uid email avg q r c
    by (simp add: row_html_def)
  have "review_escalations demo_loads demo_py_str demo_show_avg
     (Content (log_text [''{\"record\": 1}'', ''{\"record\": 3}'']))
   = Inr (page_html
        (row_html ''2024-05-01T12:00:00Z'' ''<script>alert(1)</script>'' ''bob@knox.edu''
           ''1.375'' ''Is 2 &lt; 3?'' ''No idea'' (''Math tutoring: Mon 3pm'' @ ellipsis)
         @ row_html ''2024-05-01T10:00:00Z'' ''u1'' ''bob@knox.edu''
           ''1.375'' ''Is 2 &lt; 3?'' ''No idea'' (''Math tutoring: Mon 3pm'' @ ellipsis)))"
    unfolding review_escalations_def data
    by (simp add: script_row plain_row render_row_def row)
  then show ?thesis
    using page_shows_user_id by (rule conjI)
qed

subsection \<open>Retrieval\<close>

lemma flat_l2_search_lengths:
  "length (fst (flat_l2_search xb q k)) = k \<and> length (snd (flat_l2_search xb q k)) = k"
  by (simp add: flat_l2_search_def Let_def)

lemma map_fst_insort_key: "map fst (insort_key fst x xs) = insort (fst x) (map fst xs)"
  by (induction xs) auto

lemma map_fst_sort_key: "map fst (sort_key fst xs) = sort (map fst xs)"
  by (induction xs) (auto simp: map_fst_insort_key)

lemma flat_l2_search_distances:
  "fst (flat_l2_search xb q k) =
     take k (sort (map (l2sqr q) xb)) @ replicate (k - length xb) FLT_MAX"
proof -
  have "map fst (take k (sort_key fst (zip (map (l2sqr q) xb) [0..<length xb])))
      = take k (sort (map (l2sqr q) xb))"
    by (simp add: take_map [symmetric] map_fst_sort_key)
  then show ?thesis
    by (simp add: flat_l2_search_def Let_def min_def)
qed

lemma flat_l2_search_labels:
  "set (snd (flat_l2_search xb q k)) \<subseteq> insert (- 1) (int ` {0..<length xb})"
proof -
  have "set (take k (sort_key fst (zip (map (l2sqr q) xb) [0..<length xb])))
      \<subseteq> set (zip (map (l2sqr q) xb) [0..<length xb])"
    using set_take_subset [of k "sort_key fst (zip (map (l2sqr q) xb) [0..<length xb])"] by simp
  then have "\<forall>p \<in> set (take k (sort_key fst (zip (map (l2sqr q) xb) [0..<length xb]))).
               snd p < length xb"
    by (auto dest!: subsetD dest: set_zip_rightD)
  then show ?thesis
    by (auto simp: flat_l2_search_def Let_def split: prod.splits)
qed

lemma py_getitem_label:
  assumes "xs \<noteq> []" and "i \<in> insert (- 1) (int ` {0..<length xs})"
  shows "py_getitem xs i = Inr (if i < 0 then last xs else xs ! nat i)"
proof (cases "i < 0")
  case True
  with assms have i: "i = - 1" by auto
  from assms(1) have "nat (int (length xs) + - 1) = length xs - 1"
    by (cases xs) auto
  with assms(1) have "xs ! nat (int (length xs) + - 1) = last xs"
    by (simp add: last_conv_nth)
  moreover from assms(1) have "Suc 0 \<le> length xs"
    by (cases xs) auto
  ultimately show ?thesis
    using i by (simp add: py_getitem_def)
next
  case False
  with assms show ?thesis
    by (auto simp: py_getitem_def)
qed

lemma collect_map_Inr: "collect (map (\<lambda>x. Inr (g x)) xs) = Inr (map g xs)"
  by (induction xs) auto

lemma collect_getitem:
  assumes "xs \<noteq> []" and "set I \<subseteq> insert (- 1) (int ` {0..<length xs})"
  shows "collect (map (py_getitem xs) I) = Inr (map (\<lambda>i. if i < 0 then last xs else xs ! nat i) I)"
proof -
  have "map (py_getitem xs) I = map (\<lambda>i. Inr (if i < 0 then last xs else xs ! nat i)) I"
    using assms by (intro map_cong refl py_getitem_label) auto
  then show ?thesis
    by (simp only: collect_map_Inr)
qed

lemma get_context_found:
  assumes "cs \<noteq> []" and "length ix = length cs"
  shows "get_context question ix model cs top_k =
           Inr (py_join [LF] (map (\<lambda>i. if i < 0 then last cs else cs ! nat i)
                                 (snd (flat_l2_search ix (model question) top_k))),
                fst (flat_l2_search ix (model question) top_k))"
proof -
  have "set (snd (flat_l2_search ix (model question) top_k))
      \<subseteq> insert (- 1) (int ` {0..<length cs})"
    using flat_l2_search_labels [of ix "model question" top_k] assms(2) by simp
  from collect_getitem [OF assms(1) this]
  have c: "collect (map (py_getitem cs) (snd (flat_l2_search ix (model question) top_k)))
      = Inr (map (\<lambda>i. if i < 0 then last cs else cs ! nat i)
               (snd (flat_l2_search ix (model question) top_k)))" .
  obtain D I where r: "flat_l2_search ix (model question) top_k = (D, I)"
    by (cases "flat_l2_search ix (model question) top_k")
  from c show ?thesis
    by (simp add: get_context_def Let_def r)
qed

lemma get_context_no_chunks:
  assumes "0 < top_k"
  shows "get_context question [] model [] top_k = Inl IndexError"
proof -
  from assms obtain k where k: "top_k = Suc k"
    by (cases top_k) auto
  show ?thesis
    by (simp add: get_context_def flat_l2_search_def Let_def k py_getitem_def)
qed

text \<open>
  Claim C3, as amended. For an index built over N chunks and a search with top_k up to N,
  the search returns exactly min(top_k, N) = top_k results, the top_k smallest distances
  in ascending order. The code has no error of its own for an empty index: a search over
  zero chunks with top_k at least 1 ends in Python's IndexError.
\<close>

theorem get_context_result_count:
  "(top_k \<le> length cs \<longrightarrow>
      (\<exists>texts D. get_context question (build_index model cs) model cs top_k
                   = Inr (py_join [LF] texts, D)
         \<and> length texts = min top_k (length cs) \<and> length D = min top_k (length cs)
         \<and> D = take top_k (sort (map (l2sqr (model question)) (build_index model cs)))))
   \<and> (0 < top_k \<longrightarrow>
        get_context question (build_index model []) model [] top_k = Inl IndexError)"
proof -
  have a: "top_k \<le> length cs \<longrightarrow>
      (\<exists>texts D. get_context question (build_index model cs) model cs top_k
                   = Inr (py_join [LF] texts, D)
         \<and> length texts = min top_k (length cs) \<and> length D = min top_k (length cs)
         \<and> D = take top_k (sort (map (l2sqr (model question)) (build_index model cs))))"
  proof
    assume le: "top_k \<le> length cs"
    let ?r = "flat_l2_search (build_index model cs) (model question) top_k"
    have len: "length (build_index model cs) = length cs"
      by (simp add: build_index_def)
    have l: "length (fst ?r) = top_k" "length (snd ?r) = top_k"
      using flat_l2_search_lengths [of "build_index model cs" "model question" top_k]
      by simp_all
    have d: "fst ?r = take top_k (sort (map (l2sqr (model question)) (build_index model cs)))"
      using flat_l2_search_distances [of "build_index model cs" "model question" top_k] len le
      by simp
    have "\<exists>texts. get_context question (build_index model cs) model cs top_k
                   = Inr (py_join [LF] texts, fst ?r) \<and> length texts = top_k"
    proof (cases "cs = []")
      case True
      with le have "get_context question (build_index model cs) model cs top_k
                   = Inr (py_join [LF] [], fst ?r)"
        by (simp add: get_context_def flat_l2_search_def Let_def build_index_def)
      with True le show ?thesis
        by auto
    next
      case False
      from get_context_found [OF False len, of question model top_k] l(2) show ?thesis
        by auto
    qed
    with l(1) d le show "\<exists>texts D. get_context question (build_index model cs) model cs top_k
                   = Inr (py_join [LF] texts, D)
         \<and> length texts = min top_k (length cs) \<and> length D = min top_k (length cs)
         \<and> D = take top_k (sort (map (l2sqr (model question)) (build_index model cs)))"
      by (auto simp: min_def)
  qed
  have b: "0 < top_k \<longrightarrow>
        get_context question (build_index model []) model [] top_k = Inl IndexError"
    using get_context_no_chunks [of top_k question model] by (simp add: build_index_def)
  from a b show ?thesis
    by (rule conjI)
qed

text \<open>
  The claim as stated fails: one chunk and top_k = 2 give two results, not min(2, 1), and
  the search over zero chunks raises IndexError.
\<close>

theorem get_context_result_count_counterexample:
  "get_context ''abc'' (build_index demo_embed [''ab'']) demo_embed [''ab''] 2
     = Inr (''ab\<newline>ab'', [1 / 100, FLT_MAX])
   \<and> length [1 / 100, FLT_MAX] \<noteq> min 2 (length [''ab''])
   \<and> get_context ''abc'' (build_index demo_embed []) demo_embed [] 5 = Inl IndexError"
  by code_simp

theorem get_context_result_count_witness:
  "\<exists>texts D. get_context ''abc'' (build_index demo_embed demo_chunks) demo_embed demo_chunks 5
               = Inr (py_join [LF] texts, D)
     \<and> length texts = min 5 (length demo_chunks) \<and> length D = min 5 (length demo_chunks)
     \<and> D = take 5 (sort (map (l2sqr (demo_embed ''abc'')) (build_index demo_embed demo_chunks)))"
proof -
  have le: "5 \<le> length demo_chunks"
    by (simp add: demo_chunks_def)
  show ?thesis
    using get_context_result_count [of 5 demo_chunks "''abc''" demo_embed, THEN conjunct1, rule_format, OF le] .
qed

lemma insort_key_nearer_first:
  assumes "sorted_wrt nearer_first xs" and "\<forall>y \<in> set xs. snd x < snd y"
  shows "sorted_wrt nearer_first (insort_key fst x xs)"
  using assms
proof (induction xs)
  case Nil
  then show ?case by simp
next
  case (Cons y ys)
  show ?case
  proof (cases "fst x \<le> fst y")
    case True
    have "nearer_first x z" if "z \<in> set (y # ys)" for z
    proof -
      from that Cons.prems(1) have "fst y \<le> fst z"
        by (auto simp: nearer_first_def)
      with True have "fst x \<le> fst z" by simp
      moreover from that Cons.prems(2) have "snd x < snd z" by auto
      ultimately show ?thesis by (auto simp: nearer_first_def)
    qed
    with True Cons.prems(1) show ?thesis
      by simp
  next
    case False
    then have "nearer_first y x"
      by (simp add: nearer_first_def)
    with False Cons show ?thesis
      by (auto simp: set_insort_key)
  qed
qed

lemma sort_key_zip_nearer_first:
  "sorted_wrt nearer_first (sort_key fst (zip ds [m..<m + length ds]))"
proof (induction ds arbitrary: m)
  case Nil
  show ?case by simp
next
  case (Cons d ds)
  have z: "zip (d # ds) [m..<m + length (d # ds)] = (d, m) # zip ds [Suc m..<Suc m + length ds]"
    by (simp del: upt_Suc add: upt_conv_Cons)
  have "\<forall>y \<in> set (sort_key fst (zip ds [Suc m..<Suc m + length ds])). snd (d, m) < snd y"
  proof
    fix y
    assume "y \<in> set (sort_key fst (zip ds [Suc m..<Suc m + length ds]))"
    then have "(fst y, snd y) \<in> set (zip ds [Suc m..<Suc m + length ds])"
      by (simp del: upt_Suc)
    then have "snd y \<in> set [Suc m..<Suc m + length ds]"
      by (rule set_zip_rightD)
    then show "snd (d, m) < snd y"
      by (simp del: upt_Suc)
  qed
  with Cons.IH [of "Suc m"] show ?case
    unfolding z by (simp add: insort_key_nearer_first)
qed

lemma found_results:
  fixes xb :: "vec list"
  defines "best \<equiv> \<lambda>q k. take k (sort_key fst (zip (map (l2sqr q) xb) [0..<length xb]))"
  shows "length (best q k) = min k (length xb)"
    and "sorted_wrt nearer_first (best q k)"
    and "\<forall>p \<in> set (best q k). snd p < length xb \<and> fst p = l2sqr q (xb ! snd p)"
    and "flat_l2_search xb q k =
           (map fst (best q k) @ replicate (k - length (best q k)) FLT_MAX,
            map (\<lambda>p. int (snd p)) (best q k) @ replicate (k - length (best q k)) (- 1))"
proof -
  show "length (best q k) = min k (length xb)"
    by (simp add: best_def)
  have "sorted_wrt nearer_first (sort_key fst (zip (map (l2sqr q) xb) [0..<length xb]))"
    using sort_key_zip_nearer_first [of "map (l2sqr q) xb" 0] by simp
  then show "sorted_wrt nearer_first (best q k)"
    unfolding best_def by (rule sorted_wrt_take)
  have "set (best q k) \<subseteq> set (zip (map (l2sqr q) xb) [0..<length xb])"
    unfolding best_def
    using set_take_subset [of k "sort_key fst (zip (map (l2sqr q) xb) [0..<length xb])"] by simp
  then show "\<forall>p \<in> set (best q k). snd p < length xb \<and> fst p = l2sqr q (xb ! snd p)"
    by (auto simp: set_zip dest!: subsetD)
  show "flat_l2_search xb q k =
           (map fst (best q k) @ replicate (k - length (best q k)) FLT_MAX,
            map (\<lambda>p. int (snd p)) (best q k) @ replicate (k - length (best q k)) (- 1))"
    by (simp add: flat_l2_search_def Let_def best_def case_prod_beta)
qed

text \<open>
  Claim C5. The results found for a query come by ascending L2 distance, best match first,
  and among equal distances in the order in which the chunks were inserted; the context
  and the distance list follow that order. (Slots the index could not fill come last.) The
  result is a function of index, query and top_k, so a repeated search repeats it.
\<close>

theorem retrieval_order:
  assumes "cs \<noteq> []"
  shows "\<exists>best. length best = min top_k (length cs)
           \<and> sorted_wrt nearer_first best
           \<and> (\<forall>p \<in> set best. snd p < length cs
                \<and> fst p = l2sqr (model question) (model (cs ! snd p)))
           \<and> get_context question (build_index model cs) model cs top_k
               = Inr (py_join [LF] (map (\<lambda>p. cs ! snd p) best
                                    @ replicate (top_k - length best) (last cs)),
                      map fst best @ replicate (top_k - length best) FLT_MAX)"
proof -
  let ?xb = "build_index model cs"
  let ?q = "model question"
  define best where "best = take top_k (sort_key fst (zip (map (l2sqr ?q) ?xb) [0..<length ?xb]))"
  have len: "length ?xb = length cs"
    by (simp add: build_index_def)
  have l: "length best = min top_k (length cs)"
    using found_results(1) [where xb = "?xb" and q = "?q" and k = top_k] len by (simp add: best_def)
  have s: "sorted_wrt nearer_first best"
    using found_results(2) [where xb = "?xb" and q = "?q" and k = top_k] by (simp add: best_def)
  have p: "\<forall>p \<in> set best. snd p < length cs \<and> fst p = l2sqr ?q (model (cs ! snd p))"
    using found_results(3) [where xb = "?xb" and q = "?q" and k = top_k] len by (auto simp: best_def build_index_def)
  have f: "flat_l2_search ?xb ?q top_k =
           (map fst best @ replicate (top_k - length best) FLT_MAX,
            map (\<lambda>p. int (snd p)) best @ replicate (top_k - length best) (- 1))"
    using found_results(4) [where xb = "?xb" and q = "?q" and k = top_k] by (simp add: best_def)
  have g: "get_context question ?xb model cs top_k =
      Inr (py_join [LF] (map (\<lambda>p. cs ! snd p) best @ replicate (top_k - length best) (last cs)),
           map fst best @ replicate (top_k - length best) FLT_MAX)"
    using get_context_found [OF assms len, of question model top_k]
    by (simp add: f comp_def)
  from l s p g show ?thesis
    by blast
qed

theorem retrieval_order_witness:
  "\<exists>best. length best = min 3 (length [''abcdef'', ''ab'', ''abcd''])
     \<and> sorted_wrt nearer_first best
     \<and> (\<forall>p \<in> set best. snd p < length [''abcdef'', ''ab'', ''abcd'']
          \<and> fst p = l2sqr (demo_embed ''abc'') (demo_embed ([''abcdef'', ''ab'', ''abcd''] ! snd p)))
     \<and> get_context ''abc'' (build_index demo_embed [''abcdef'', ''ab'', ''abcd'']) demo_embed
          [''abcdef'', ''ab'', ''abcd''] 3
         = Inr (py_join [LF] (map (\<lambda>p. [''abcdef'', ''ab'', ''abcd''] ! snd p) best
                              @ replicate (3 - length best) (last [''abcdef'', ''ab'', ''abcd''])),
                map fst best @ replicate (3 - length best) FLT_MAX)"
proof -
  have ne: "[''abcdef'', ''ab'', ''abcd''] \<noteq> []"
    by simp
  show ?thesis
    by (rule retrieval_order [OF ne])
qed

lemma retrieval_order_example:
  "get_context ''abc'' (build_index demo_embed [''abcdef'', ''ab'', ''abcd'']) demo_embed
          [''abcdef'', ''ab'', ''abcd''] 3
     = Inr (''ab\<newline>abcd\<newline>abcdef'', [1 / 100, 1 / 100, 9 / 100])"
  by code_simp

end
